theory Spec2Isabelle
  imports Main "HOL-Library.Word"
begin

unbundle bit_operations_syntax

section \<open>Machine integers\<close>

text \<open>
  Go's fixed-width integers are words: \<open>uint64\<close> and \<open>uint32\<close> are read unsigned
  (the order \<open>\<le>\<close> on words is the unsigned one), \<open>int32\<close> and \<open>int64\<close> are the
  same bits read with \<open>sint\<close>. Go's \<open>int\<close> holds slice lengths and indices, which
  are natural numbers here; the process id, on which no arithmetic is done, is an
  \<open>int\<close>.
\<close>

type_synonym uint64 = "64 word"
type_synonym uint32 = "32 word"
type_synonym int32 = "32 word"
type_synonym int64 = "64 word"
type_synonym byte = "8 word"

section \<open>Program addr2func: the symbolizer\<close>

text \<open>
  The part of \<open>debug/elf\<close> that \<open>newSymbolizer\<close> reads: a symbol is a name and a
  value, a program header has a type, an offset in the file and a virtual
  address. \<open>File.Symbols()\<close> returns the symbols or an error, and \<open>File.Progs\<close> is
  the list of program headers.
\<close>

record Symbol =
  Name :: string
  Value :: uint64

record ProgHeader =
  Type :: int
  Off :: uint64
  Vaddr :: uint64

definition PT_LOAD :: int where
  "PT_LOAD = 1"

record elf_File =
  Symbols :: "string + Symbol list"
  Progs :: "ProgHeader list"

record symbolizer =
  symbols :: "Symbol list"
  segmentOffset :: uint64
  memoryStart :: uint64
  isPIE :: bool

datatype error =
  FailedToGetSymbols string
  | SegmentNotFound uint64

text \<open>
  The scan of \<open>f.Progs\<close> in \<open>newSymbolizer\<close>: \<open>segment\<close> starts as the zero
  \<open>ProgHeader\<close> and the loop stops at the first header whose \<open>Off\<close> is
  \<open>fileOffset\<close>, whatever its type.
\<close>

fun findSegment :: "ProgHeader list \<Rightarrow> uint64 \<Rightarrow> ProgHeader" where
  "findSegment [] fileOffset = \<lparr>Type = 0, Off = 0, Vaddr = 0\<rparr>"
| "findSegment (p # ps) fileOffset =
     (if Off p = fileOffset then p else findSegment ps fileOffset)"

text \<open>
  \<open>sort.SliceStable\<close> with the comparison \<open>symbols[i].Value < symbols[j].Value\<close> is a
  stable sort by \<open>Value\<close>, as \<open>sort_key\<close> is.
\<close>

definition newSymbolizer :: "elf_File \<Rightarrow> uint64 \<Rightarrow> uint64 \<Rightarrow> error + symbolizer" where
  "newSymbolizer f fileOffset memStart =
     (case Symbols f of
        Inl err \<Rightarrow> Inl (FailedToGetSymbols err)
      | Inr syms \<Rightarrow>
          (let sorted_syms = sort_key Value syms;
               segment = findSegment (Progs f) fileOffset
           in if Type segment \<noteq> PT_LOAD then Inl (SegmentNotFound fileOffset)
              else Inr \<lparr>symbols = sorted_syms,
                        segmentOffset = Off segment,
                        memoryStart = memStart,
                        isPIE = (Vaddr segment = Off segment)\<rparr>))"

text \<open>
  \<open>sort.Search(n, f)\<close> of the Go library: the binary search
  \<^verbatim>\<open>i, j := 0, n; for i < j { h := int(uint(i+j) >> 1); if !f(h) { i = h + 1 } else { j = h } }; return i\<close>.
\<close>

function search_loop :: "(nat \<Rightarrow> bool) \<Rightarrow> nat \<Rightarrow> nat \<Rightarrow> nat" where
  "search_loop f i j =
     (if i < j
      then (let h = (i + j) div 2
            in if \<not> f h then search_loop f (h + 1) j else search_loop f i h)
      else i)"
  by pat_completeness auto
termination
  by (relation "measure (\<lambda>(f, i, j). j - i)") auto

definition Search :: "nat \<Rightarrow> (nat \<Rightarrow> bool) \<Rightarrow> nat" where
  "Search n f = search_loop f 0 n"

definition notfound :: string where
  "notfound = ''?''"

text \<open>
  \<open>Addr2FuncName\<close> after its position-independent block: the search of the table
  for the address that \<open>addr\<close> then holds, and the choice of the name.
\<close>

definition searchSymbols :: "Symbol list \<Rightarrow> uint64 \<Rightarrow> string" where
  "searchSymbols syms addr =
     (let i = Search (length syms) (\<lambda>i. Value (syms ! i) \<ge> addr)
      in if i \<ge> length syms then notfound
         else if Value (syms ! i) = addr then Name (syms ! i)
         else if i \<ge> 1 \<and> Value (syms ! (i - 1)) > 0 then Name (syms ! (i - 1))
         else notfound)"

definition Addr2FuncName :: "symbolizer \<Rightarrow> uint64 \<Rightarrow> string" where
  "Addr2FuncName s addr =
     (if addr = 0 then notfound
      else if isPIE s
      then (if addr < memoryStart s then notfound
            else (let segmentDistance = addr - memoryStart s
                  in searchSymbols (symbols s) (segmentOffset s + segmentDistance)))
      else searchSymbols (symbols s) addr)"

section \<open>Program profiler2: filling the profile\<close>

text \<open>
  The part of \<open>pprof\<close>'s profile that \<open>fillProfile\<close> touches. The code holds
  mappings and locations by pointer. A pointer to a mapping is its position in the
  list \<open>mm\<close> (the entries of \<open>mm\<close> are distinct objects, as \<open>ParseProcMaps\<close>
  allocates them), \<open>None\<close> is the nil pointer; a pointer to a location is its
  position in \<open>prof.Location\<close>, the list the location is appended to when it is
  allocated.
\<close>

record Mapping =
  Mapping_ID :: uint64
  Start :: uint64
  Limit :: uint64
  Offset :: uint64
  File :: string

record Location =
  Location_ID :: uint64
  Address :: uint64
  Location_Mapping :: "nat option"

record Sample =
  Sample_Value :: "int64 list"
  Sample_Location :: "nat list"

record Profile =
  Profile_Sample :: "Sample list"
  Profile_Mapping :: "Mapping list"
  Profile_Location :: "Location list"

record stackCountKey =
  PID :: uint32
  UserStackID :: int32
  KernelStackID :: int32

type_synonym locationIndex = "int \<times> uint64"

definition stackDepth :: nat where
  "stackDepth = 127"

text \<open>
  \<open>binary.LittleEndian.Uint64\<close> on eight bytes, and \<open>binary.Read\<close> of a buffer into
  a \<open>[stackDepth]uint64\<close>: it needs \<open>8 * stackDepth\<close> bytes and fails with \<open>EOF\<close> on an
  empty buffer and with \<open>unexpected EOF\<close> on a shorter one; bytes beyond are left
  unread. The \<open>i\<close>-th value is read from the eight bytes at \<open>8 * i\<close>.
\<close>

datatype io_error = EOF | ErrUnexpectedEOF

definition le_uint64 :: "byte list \<Rightarrow> uint64" where
  "le_uint64 b =
     ucast (b ! 0) OR push_bit 8 (ucast (b ! 1)) OR push_bit 16 (ucast (b ! 2))
       OR push_bit 24 (ucast (b ! 3)) OR push_bit 32 (ucast (b ! 4))
       OR push_bit 40 (ucast (b ! 5)) OR push_bit 48 (ucast (b ! 6))
       OR push_bit 56 (ucast (b ! 7))"

definition read_uint64s :: "nat \<Rightarrow> byte list \<Rightarrow> uint64 list" where
  "read_uint64s n bs = map (\<lambda>i. le_uint64 (take 8 (drop (8 * i) bs))) [0..<n]"

definition binary_Read :: "byte list \<Rightarrow> io_error + uint64 list" where
  "binary_Read bs =
     (if bs = [] then Inl EOF
      else if length bs < 8 * stackDepth then Inl ErrUnexpectedEOF
      else Inr (read_uint64s stackDepth bs))"

text \<open>
  \<open>mappingForAddr\<close>: the first mapping of the list with
  \<open>m.Start <= addr && m.Limit >= addr\<close>, or nil.
\<close>

fun mappingForAddr_from :: "nat \<Rightarrow> Mapping list \<Rightarrow> uint64 \<Rightarrow> nat option" where
  "mappingForAddr_from i [] addr = None"
| "mappingForAddr_from i (m # ms) addr =
     (if Start m \<le> addr \<and> Limit m \<ge> addr then Some i
      else mappingForAddr_from (i + 1) ms addr)"

definition mappingForAddr :: "Mapping list \<Rightarrow> uint64 \<Rightarrow> nat option" where
  "mappingForAddr mapping addr = mappingForAddr_from 0 mapping addr"

text \<open>
  \<open>tracedAddresses\<close>, which \<open>fillProfile\<close> uses for printing only: the slice
  before the first zero, and nil when the stack holds no zero.
\<close>

fun tracedAddresses_from :: "uint64 list \<Rightarrow> uint64 list \<Rightarrow> uint64 list" where
  "tracedAddresses_from seen [] = []"
| "tracedAddresses_from seen (addr # rest) =
     (if addr = 0 then seen else tracedAddresses_from (seen @ [addr]) rest)"

definition tracedAddresses :: "uint64 list \<Rightarrow> uint64 list" where
  "tracedAddresses stack = tracedAddresses_from [] stack"

text \<open>
  One round of the loop over \<open>userStack\<close> in \<open>fillProfile\<close>. The state is the
  profile, the map \<open>locationIndices\<close> and \<open>sampleLocations\<close>.
\<close>

type_synonym loc_state = "Profile \<times> (locationIndex \<rightharpoonup> nat) \<times> nat list"

definition addLocation :: "int \<Rightarrow> Mapping list \<Rightarrow> uint64 \<Rightarrow> loc_state \<Rightarrow> loc_state" where
  "addLocation pid mm addr st =
     (case st of (prof, locationIndices, sampleLocations) \<Rightarrow>
        if addr = 0 then st
        else (let locKey = (pid, addr)
              in case locationIndices locKey of
                   Some locIndex \<Rightarrow> (prof, locationIndices, sampleLocations @ [locIndex])
                 | None \<Rightarrow>
                     (let m = mappingForAddr mm addr;
                          locIndex = length (Profile_Location prof);
                          prof' = prof\<lparr>Profile_Location := Profile_Location prof @
                                    [\<lparr>Location_ID = of_nat (locIndex + 1),
                                      Address = addr,
                                      Location_Mapping = m\<rparr>]\<rparr>
                      in (prof', locationIndices(locKey \<mapsto> locIndex),
                          sampleLocations @ [locIndex]))))"

type_synonym fill_state = "Profile \<times> (locationIndex \<rightharpoonup> nat)"

text \<open>
  The rest of a round of the loop over the \<open>Counts\<close> map, from
  \<open>// Collect user-space stack trace samples\<close> on: the loop over \<open>userStack\<close>, then
  the append of the sample with the count and the locations gathered.
\<close>

definition appendSample ::
  "int \<Rightarrow> Mapping list \<Rightarrow> uint64 list \<Rightarrow> uint64 \<Rightarrow> fill_state \<Rightarrow> fill_state" where
  "appendSample pid mm userStack seen st =
     (case st of (prof, locationIndices) \<Rightarrow>
      case fold (addLocation pid mm) userStack (prof, locationIndices, []) of
        (prof', locationIndices', sampleLocations) \<Rightarrow>
          (prof'\<lparr>Profile_Sample := Profile_Sample prof' @
               [\<lparr>Sample_Value = [seen], Sample_Location = sampleLocations\<rparr>]\<rparr>,
           locationIndices'))"

text \<open>
  One round of the loop over the \<open>Counts\<close> map. \<open>stackTraces\<close> is the table's
  \<open>LookupBytes\<close>: an error, or the bytes stored under the id (none for an id the
  table does not hold). Every \<open>continue\<close> leaves the state as it is. A kernel stack
  that cannot be decoded is logged and a decoded one is printed; the round goes on to
  the sample after either. What the code logs and prints is not part of the state.
\<close>

definition fillProfile_key ::
  "(int32 \<Rightarrow> string + byte list) \<Rightarrow> int \<Rightarrow> Mapping list \<Rightarrow>
     stackCountKey \<times> uint64 \<Rightarrow> fill_state \<Rightarrow> fill_state" where
  "fillProfile_key stackTraces pid mm entry st =
     (case entry of (key, seen) \<Rightarrow>
        (case stackTraces (UserStackID key) of
           Inl err \<Rightarrow> st
         | Inr stackBytes \<Rightarrow>
             (case binary_Read stackBytes of
                Inl err \<Rightarrow> st
              | Inr userStack \<Rightarrow>
                  (case stackTraces (KernelStackID key) of
                     Inl err \<Rightarrow> st
                   | Inr kernelBytes \<Rightarrow>
                       (case binary_Read kernelBytes of
                          Inl err \<Rightarrow> appendSample pid mm userStack seen st
                        | Inr kernelStack \<Rightarrow> appendSample pid mm userStack seen st)))))"

text \<open>
  \<open>fillProfile\<close>: \<open>counts\<close> is the content of the \<open>Counts\<close> map in the order the
  iterator yields it (an error of the iterator ends the loop and is logged). The map
  \<open>locationIndices\<close> starts empty. After the loop the mappings get the ids \<open>i + 1\<close>
  and become the profile's mappings.
\<close>

definition fillProfile ::
  "(stackCountKey \<times> uint64) list \<Rightarrow> (int32 \<Rightarrow> string + byte list) \<Rightarrow> Profile \<Rightarrow> int \<Rightarrow>
     Mapping list \<Rightarrow> Profile" where
  "fillProfile counts stackTraces prof pid mm =
     (case fold (fillProfile_key stackTraces pid mm) counts (prof, Map.empty) of
        (prof', locationIndices) \<Rightarrow>
          prof'\<lparr>Profile_Mapping :=
            map (\<lambda>(i, m). m\<lparr>Mapping_ID := of_nat (i + 1)\<rparr>) (enumerate 0 mm)\<rparr>)"

text \<open>
  The table that \<open>fillProfile\<close> looks stacks up in is the map \<open>stack_traces\<close> of the
  BPF program, whose values are arrays of \<open>MAX_STACK_DEPTH\<close> addresses. The program
  fills it with \<open>bpf_get_stackid\<close>, which stores a stack under the id it returns:
  \<^verbatim>\<open>The positive or null stack id is returned on success, or a negative error in case
  of failure\<close>. A table holds a stack under an id when the lookup of the id gives the
  \<open>8 * stackDepth\<close> bytes of a stack; \<open>stack_traces_map\<close> says of a table that it holds
  stacks under ids that are not negative only, as the map of the program does: under a
  negative id the lookup fails or gives fewer bytes (none, for an id that is not in the
  map).
\<close>

definition holds_stack :: "(int32 \<Rightarrow> string + byte list) \<Rightarrow> int32 \<Rightarrow> bool" where
  "holds_stack stackTraces k =
     (case stackTraces k of
        Inl err \<Rightarrow> False
      | Inr stackBytes \<Rightarrow> 8 * stackDepth \<le> length stackBytes)"

definition stack_traces_map :: "(int32 \<Rightarrow> string + byte list) \<Rightarrow> bool" where
  "stack_traces_map stackTraces \<longleftrightarrow> (\<forall>k. holds_stack stackTraces k \<longrightarrow> 0 \<le> sint k)"

section \<open>The invariant of the location index\<close>

text \<open>
  What holds of \<open>prof.Location\<close> and \<open>locationIndices\<close> throughout \<open>fillProfile\<close>,
  where \<open>n0\<close> is the number of locations the profile had at the start: the index
  holds exactly the locations made since, each under its own address, and each of them
  has a nonzero address, the mapping \<open>mappingForAddr\<close> gives, and its position plus
  one as id.
\<close>

definition locs_inv :: "nat \<Rightarrow> int \<Rightarrow> Mapping list \<Rightarrow> Location list \<Rightarrow> (locationIndex \<rightharpoonup> nat) \<Rightarrow> bool" where
  "locs_inv n0 pid mm locs L \<longleftrightarrow>
     n0 \<le> length locs \<and>
     (\<forall>k i. L k = Some i \<longrightarrow> n0 \<le> i \<and> i < length locs \<and> k = (pid, Address (locs ! i))) \<and>
     (\<forall>i. n0 \<le> i \<and> i < length locs \<longrightarrow>
        L (pid, Address (locs ! i)) = Some i \<and> Address (locs ! i) \<noteq> 0 \<and>
        Location_Mapping (locs ! i) = mappingForAddr mm (Address (locs ! i)) \<and>
        Location_ID (locs ! i) = of_nat (i + 1))"

section \<open>Example inputs\<close>

text \<open>
  A position-independent executable with the symbols \<open>fib\<close> and \<open>main\<close>, whose
  loadable segment at offset \<open>0x1000\<close> has the virtual address \<open>0x1000\<close>, and its
  symbolizer for a process that mapped the segment at \<open>0x401000\<close>.
\<close>

definition example_pie_file :: elf_File where
  "example_pie_file =
     \<lparr>Symbols = Inr [\<lparr>Name = ''fib'', Value = 0x1010\<rparr>, \<lparr>Name = ''main'', Value = 0x1000\<rparr>],
      Progs = [\<lparr>Type = 6, Off = 0x40, Vaddr = 0x40\<rparr>,
               \<lparr>Type = PT_LOAD, Off = 0, Vaddr = 0\<rparr>,
               \<lparr>Type = PT_LOAD, Off = 0x1000, Vaddr = 0x1000\<rparr>]\<rparr>"

definition example_pie_symbolizer :: symbolizer where
  "example_pie_symbolizer =
     \<lparr>symbols = [\<lparr>Name = ''main'', Value = 0x1000\<rparr>, \<lparr>Name = ''fib'', Value = 0x1010\<rparr>],
      segmentOffset = 0x1000, memoryStart = 0x401000, isPIE = True\<rparr>"

text \<open>
  The symbolizer of an executable that is not position-independent. Its sorted table
  starts with a symbol of value zero and holds two symbols of the same value.
\<close>

definition example_symbolizer :: symbolizer where
  "example_symbolizer =
     \<lparr>symbols = [\<lparr>Name = ''fib.c'', Value = 0\<rparr>,
                 \<lparr>Name = ''frame_dummy'', Value = 0x401120\<rparr>,
                 \<lparr>Name = ''fibNaive'', Value = 0x401126\<rparr>,
                 \<lparr>Name = ''main'', Value = 0x40115a\<rparr>,
                 \<lparr>Name = ''__data_start'', Value = 0x404020\<rparr>,
                 \<lparr>Name = ''data_start'', Value = 0x404020\<rparr>],
      segmentOffset = 0x1000, memoryStart = 0x401000, isPIE = False\<rparr>"

text \<open>
  Two files with a loadable segment at offset \<open>0x1000\<close>: one whose symbols cannot
  be read, and one in which a header of another type with the same offset comes first.
\<close>

definition example_stripped_file :: elf_File where
  "example_stripped_file =
     \<lparr>Symbols = Inl ''no symbol section'',
      Progs = [\<lparr>Type = PT_LOAD, Off = 0x1000, Vaddr = 0x401000\<rparr>]\<rparr>"

definition example_shadowed_file :: elf_File where
  "example_shadowed_file =
     \<lparr>Symbols = Inr [\<lparr>Name = ''main'', Value = 0x40115a\<rparr>],
      Progs = [\<lparr>Type = 4, Off = 0x1000, Vaddr = 0x401000\<rparr>,
               \<lparr>Type = PT_LOAD, Off = 0x1000, Vaddr = 0x401000\<rparr>]\<rparr>"

text \<open>
  A process with two mappings that share the address \<open>0x401000\<close>, a profile whose
  lists are empty, as those of the profile that \<open>newProfile\<close> returns, and the
  bytes of three stacks: the frames \<open>0x401126\<close>, \<open>0x401000\<close> and
  \<open>0x7ffd5e3c2a10\<close> and padding; the frames \<open>0x401126\<close> and \<open>0x40115a\<close> with a
  zero between them; zeros only.
\<close>

definition example_mappings :: "Mapping list" where
  "example_mappings =
     [\<lparr>Mapping_ID = 0, Start = 0x400000, Limit = 0x401000, Offset = 0, File = ''/vagrant/fib''\<rparr>,
      \<lparr>Mapping_ID = 0, Start = 0x401000, Limit = 0x402000, Offset = 0x1000,
        File = ''/vagrant/fib''\<rparr>]"

definition empty_profile :: Profile where
  "empty_profile = \<lparr>Profile_Sample = [], Profile_Mapping = [], Profile_Location = []\<rparr>"

definition example_user_bytes :: "byte list" where
  "example_user_bytes =
     [0x26, 0x11, 0x40, 0, 0, 0, 0, 0, 0x00, 0x10, 0x40, 0, 0, 0, 0, 0,
      0x10, 0x2a, 0x3c, 0x5e, 0xfd, 0x7f, 0, 0] @ replicate 992 0"

definition example_gap_bytes :: "byte list" where
  "example_gap_bytes =
     [0x26, 0x11, 0x40, 0, 0, 0, 0, 0, 0, 0, 0, 0, 0, 0, 0, 0, 0x5a, 0x11, 0x40, 0, 0, 0, 0, 0]
       @ replicate 992 0"

definition example_kernel_bytes :: "byte list" where
  "example_kernel_bytes = replicate 1016 0"

text \<open>
  A stack-trace table: the ids 132, 366 and 114 hold the three stacks, the lookup of
  id 943 fails, and every other id is not in the table.
\<close>

definition example_stackTraces :: "int32 \<Rightarrow> string + byte list" where
  "example_stackTraces k =
     (if k = 132 then Inr example_user_bytes
      else if k = 366 then Inr example_gap_bytes
      else if k = 114 then Inr example_kernel_bytes
      else if k = 943 then Inl ''lookup: bad file descriptor''
      else Inr [])"

text \<open>
  Two keys whose user stacks share the frame \<open>0x401126\<close>.
\<close>

definition example_counts :: "(stackCountKey \<times> uint64) list" where
  "example_counts =
     [(\<lparr>PID = 1, UserStackID = 132, KernelStackID = 114\<rparr>, 3),
      (\<lparr>PID = 1, UserStackID = 366, KernelStackID = 114\<rparr>, 1)]"

section \<open>The binary search of the symbol table\<close>

declare search_loop.simps [simp del]

lemma search_loop_spec:
  "(\<forall>a b. a \<le> b \<and> b < n \<and> f a \<longrightarrow> f b) \<Longrightarrow> i \<le> j \<Longrightarrow> j \<le> n \<Longrightarrow> (\<forall>m. m < i \<longrightarrow> \<not> f m) \<Longrightarrow> (\<forall>m. j \<le> m \<and> m < n \<longrightarrow> f m) \<Longrightarrow>
     i \<le> search_loop f i j \<and> search_loop f i j \<le> j \<and> (\<forall>m. m < search_loop f i j \<longrightarrow> \<not> f m) \<and>
     (\<forall>m. search_loop f i j \<le> m \<and> m < n \<longrightarrow> f m)"
proof (induction f i j rule: search_loop.induct)
  case (1 f i j)
  note mono = "1.prems"(1)
  show ?case
  proof (cases "i < j")
    case False
    have "search_loop f i j = i"
      using False by (subst search_loop.simps) simp
    with "1.prems" False show ?thesis by simp
  next
    case True
    define h where "h = (i + j) div 2"
    have hi: "i \<le> h" and hj: "h < j" using True by (simp_all add: h_def)
    have hn: "h < n" using hj "1.prems"(3) by simp
    show ?thesis
    proof (cases "f h")
      case fh: True
      have eq: "search_loop f i j = search_loop f i h"
        using True fh by (subst search_loop.simps) (simp add: h_def Let_def)
      have up: "\<forall>m. h \<le> m \<and> m < n \<longrightarrow> f m"
        using mono fh by blast
      have "i \<le> search_loop f i h \<and> search_loop f i h \<le> h \<and> (\<forall>m. m < search_loop f i h \<longrightarrow> \<not> f m) \<and>
            (\<forall>m. search_loop f i h \<le> m \<and> m < n \<longrightarrow> f m)"
      proof (rule "1.IH"(2) [OF True h_def])
        show "\<not> \<not> f h" using fh by simp
        show "\<forall>a b. a \<le> b \<and> b < n \<and> f a \<longrightarrow> f b" by (rule mono)
        show "i \<le> h" by (rule hi)
        show "h \<le> n" using hn by simp
        show "\<forall>m. m < i \<longrightarrow> \<not> f m" by (rule "1.prems"(4))
        show "\<forall>m. h \<le> m \<and> m < n \<longrightarrow> f m" by (rule up)
      qed
      then show ?thesis using hj by (simp add: eq)
    next
      case nfh: False
      have eq: "search_loop f i j = search_loop f (h + 1) j"
        using True nfh by (subst search_loop.simps) (simp add: h_def Let_def)
      have low: "\<forall>m. m < h + 1 \<longrightarrow> \<not> f m"
      proof (intro allI impI)
        fix m assume "m < h + 1"
        then have "m \<le> h" by simp
        then show "\<not> f m" using mono hn nfh by blast
      qed
      have "h + 1 \<le> search_loop f (h + 1) j \<and> search_loop f (h + 1) j \<le> j \<and>
            (\<forall>m. m < search_loop f (h + 1) j \<longrightarrow> \<not> f m) \<and>
            (\<forall>m. search_loop f (h + 1) j \<le> m \<and> m < n \<longrightarrow> f m)"
      proof (rule "1.IH"(1) [OF True h_def])
        show "\<not> f h" by (rule nfh)
        show "\<forall>a b. a \<le> b \<and> b < n \<and> f a \<longrightarrow> f b" by (rule mono)
        show "h + 1 \<le> j" using hj by simp
        show "j \<le> n" by (rule "1.prems"(3))
        show "\<forall>m. m < h + 1 \<longrightarrow> \<not> f m" by (rule low)
        show "\<forall>m. j \<le> m \<and> m < n \<longrightarrow> f m" by (rule "1.prems"(5))
      qed
      then show ?thesis using hi by (simp add: eq)
    qed
  qed
qed

lemma Search_spec:
  assumes "\<forall>a b. a \<le> b \<and> b < n \<and> f a \<longrightarrow> f b"
  shows "Search n f \<le> n" and "\<And>m. m < Search n f \<Longrightarrow> \<not> f m"
    and "\<And>m. Search n f \<le> m \<Longrightarrow> m < n \<Longrightarrow> f m"
proof -
  have r: "0 \<le> search_loop f 0 n \<and> search_loop f 0 n \<le> n \<and>
        (\<forall>m. m < search_loop f 0 n \<longrightarrow> \<not> f m) \<and>
        (\<forall>m. search_loop f 0 n \<le> m \<and> m < n \<longrightarrow> f m)"
  proof (rule search_loop_spec [OF assms])
    show "0 \<le> n" by simp
    show "n \<le> n" by simp
    show "\<forall>m. m < 0 \<longrightarrow> \<not> f m" by simp
    show "\<forall>m. n \<le> m \<and> m < n \<longrightarrow> f m" by auto
  qed
  show "Search n f \<le> n" unfolding Search_def using r by (elim conjE)
  show "\<And>m. m < Search n f \<Longrightarrow> \<not> f m" unfolding Search_def using r by (elim conjE) blast
  show "\<And>m. Search n f \<le> m \<Longrightarrow> m < n \<Longrightarrow> f m"
    unfolding Search_def using r by (elim conjE) blast
qed

lemma Search_unique:
  assumes mono: "\<forall>a b. a \<le> b \<and> b < n \<and> f a \<longrightarrow> f b"
    and i: "i \<le> n" and lo: "\<forall>m. m < i \<longrightarrow> \<not> f m" and hi: "\<forall>m. i \<le> m \<and> m < n \<longrightarrow> f m"
  shows "Search n f = i"
proof -
  note S = Search_spec [OF mono]
  have "\<not> Search n f < i"
  proof
    assume a: "Search n f < i"
    then have "\<not> f (Search n f)" using lo by blast
    moreover have "Search n f < n" using a i by simp
    then have "f (Search n f)" using S(3) [of "Search n f"] by simp
    ultimately show False by simp
  qed
  moreover have "\<not> i < Search n f"
  proof
    assume a: "i < Search n f"
    then have "\<not> f i" by (rule S(2))
    moreover have "i < n" using a S(1) by simp
    then have "f i" using hi by blast
    ultimately show False by simp
  qed
  ultimately show ?thesis by arith
qed

lemma sorted_Value_mono:
  assumes "sorted (map Value syms)" "a \<le> b" "b < length syms"
  shows "Value (syms ! a) \<le> Value (syms ! b)"
proof -
  have "map Value syms ! a \<le> map Value syms ! b"
    using assms by (intro sorted_nth_mono) simp_all
  then show ?thesis using assms by simp
qed

lemma Search_symbols:
  assumes srt: "sorted (map Value syms)"
    and i: "i \<le> length syms"
    and lo: "\<forall>m. m < i \<longrightarrow> Value (syms ! m) < addr"
    and hi: "i < length syms \<longrightarrow> addr \<le> Value (syms ! i)"
  shows "Search (length syms) (\<lambda>i. Value (syms ! i) \<ge> addr) = i"
proof (rule Search_unique)
  show "\<forall>a b. a \<le> b \<and> b < length syms \<and> addr \<le> Value (syms ! a) \<longrightarrow> addr \<le> Value (syms ! b)"
  proof (intro allI impI)
    fix a b assume ab: "a \<le> b \<and> b < length syms \<and> addr \<le> Value (syms ! a)"
    then have "addr \<le> Value (syms ! a)" by simp
    also have "\<dots> \<le> Value (syms ! b)" using sorted_Value_mono [OF srt, of a b] ab by simp
    finally show "addr \<le> Value (syms ! b)" .
  qed
  show "i \<le> length syms" by (rule i)
  show "\<forall>m. m < i \<longrightarrow> \<not> addr \<le> Value (syms ! m)" using lo by (simp add: not_le)
  show "\<forall>m. i \<le> m \<and> m < length syms \<longrightarrow> addr \<le> Value (syms ! m)"
  proof (intro allI impI)
    fix m assume m: "i \<le> m \<and> m < length syms"
    then have "addr \<le> Value (syms ! i)" using hi by simp
    also have "\<dots> \<le> Value (syms ! m)" using sorted_Value_mono [OF srt] m by simp
    finally show "addr \<le> Value (syms ! m)" .
  qed
qed

lemma searchSymbols_exact:
  assumes srt: "sorted (map Value syms)" and i: "i < length syms"
    and v: "Value (syms ! i) = addr" and first: "\<forall>j<i. Value (syms ! j) \<noteq> addr"
  shows "searchSymbols syms addr = Name (syms ! i)"
proof -
  have lo: "\<forall>m. m < i \<longrightarrow> Value (syms ! m) < addr"
  proof (intro allI impI)
    fix m assume m: "m < i"
    then have "Value (syms ! m) \<le> Value (syms ! i)"
      using sorted_Value_mono [OF srt, of m i] i by simp
    moreover have "Value (syms ! m) \<noteq> addr" using first m by simp
    ultimately show "Value (syms ! m) < addr" using v by simp
  qed
  have "Search (length syms) (\<lambda>i. Value (syms ! i) \<ge> addr) = i"
    using Search_symbols [OF srt _ lo] i v by simp
  then show ?thesis using i v by (simp add: searchSymbols_def)
qed

lemma searchSymbols_between:
  assumes srt: "sorted (map Value syms)" and i: "Suc i < length syms"
    and l: "Value (syms ! i) < addr" and u: "addr < Value (syms ! Suc i)"
  shows "searchSymbols syms addr = (if Value (syms ! i) \<noteq> 0 then Name (syms ! i) else notfound)"
proof -
  have lo: "\<forall>m. m < Suc i \<longrightarrow> Value (syms ! m) < addr"
  proof (intro allI impI)
    fix m assume m: "m < Suc i"
    then have "Value (syms ! m) \<le> Value (syms ! i)"
      using sorted_Value_mono [OF srt, of m i] i by simp
    then show "Value (syms ! m) < addr" using l by simp
  qed
  have "addr \<le> Value (syms ! Suc i)" using u by simp
  then have "Search (length syms) (\<lambda>i. Value (syms ! i) \<ge> addr) = Suc i"
    using Search_symbols [OF srt _ lo] i by simp
  moreover have "Value (syms ! Suc i) \<noteq> addr" using u by simp
  moreover have "0 < Value (syms ! i) \<longleftrightarrow> Value (syms ! i) \<noteq> 0"
    by (rule word_greater_zero_iff)
  ultimately show ?thesis using i by (simp add: searchSymbols_def)
qed

lemma searchSymbols_before_first:
  assumes srt: "sorted (map Value syms)" and ne: "syms \<noteq> []" and u: "addr < Value (syms ! 0)"
  shows "searchSymbols syms addr = notfound"
proof -
  have "addr \<le> Value (syms ! 0)" using u by simp
  then have "Search (length syms) (\<lambda>i. Value (syms ! i) \<ge> addr) = 0"
    using Search_symbols [OF srt, of 0 addr] by simp
  moreover have "Value (syms ! 0) \<noteq> addr" using u by simp
  ultimately show ?thesis using ne by (simp add: searchSymbols_def)
qed

lemma searchSymbols_past_end:
  assumes "\<forall>x\<in>set syms. Value x < addr"
  shows "searchSymbols syms addr = notfound"
proof -
  have no: "\<not> addr \<le> Value (syms ! m)" if "m < length syms" for m
    using assms that by (simp add: not_le)
  have "Search (length syms) (\<lambda>i. Value (syms ! i) \<ge> addr) = length syms"
  proof (rule Search_unique)
    show "\<forall>a b. a \<le> b \<and> b < length syms \<and> addr \<le> Value (syms ! a) \<longrightarrow> addr \<le> Value (syms ! b)"
      using no by auto
    show "length syms \<le> length syms" by simp
    show "\<forall>m. m < length syms \<longrightarrow> \<not> addr \<le> Value (syms ! m)" using no by simp
    show "\<forall>m. length syms \<le> m \<and> m < length syms \<longrightarrow> addr \<le> Value (syms ! m)" by auto
  qed
  then show ?thesis by (simp add: searchSymbols_def)
qed

section \<open>Resolving an address\<close>

lemma Addr2FuncName_zero: "Addr2FuncName s 0 = notfound"
  by (simp add: Addr2FuncName_def)

lemma Addr2FuncName_searched:
  assumes "addr \<noteq> 0" and "isPIE s \<longrightarrow> memoryStart s \<le> addr"
  shows "Addr2FuncName s addr =
     searchSymbols (symbols s)
       (if isPIE s then segmentOffset s + (addr - memoryStart s) else addr)"
  using assms by (simp add: Addr2FuncName_def Let_def not_less [symmetric])

lemma sorted_example_symbolizer: "sorted (map Value (symbols example_symbolizer))"
  by (simp add: example_symbolizer_def)

lemma sorted_example_pie_symbolizer: "sorted (map Value (symbols example_pie_symbolizer))"
  by (simp add: example_pie_symbolizer_def)

text \<open>
  C6, as amended. For a nonzero address whose searched address (the address itself, or
  \<open>segmentOffset + (addr - memoryStart)\<close> on a position-independent binary, where
  \<open>addr\<close> is not below \<open>memoryStart\<close>) is the value of a symbol of the sorted table,
  \<open>Addr2FuncName\<close> returns the name of the first symbol of the table with that value.
\<close>

theorem Addr2FuncName_exact_hit:
  assumes "sorted (map Value (symbols s))"
    and "addr \<noteq> 0" and "isPIE s \<longrightarrow> memoryStart s \<le> addr"
    and "i < length (symbols s)"
    and "Value (symbols s ! i) =
           (if isPIE s then segmentOffset s + (addr - memoryStart s) else addr)"
    and "\<forall>j<i. Value (symbols s ! j) \<noteq> Value (symbols s ! i)"
  shows "Addr2FuncName s addr = Name (symbols s ! i)"
proof -
  let ?t = "if isPIE s then segmentOffset s + (addr - memoryStart s) else addr"
  have "\<forall>j<i. Value (symbols s ! j) \<noteq> ?t" using assms(5,6) by simp
  then have "searchSymbols (symbols s) ?t = Name (symbols s ! i)"
    using searchSymbols_exact [OF assms(1,4,5)] by blast
  then show ?thesis using Addr2FuncName_searched [OF assms(2,3)] by simp
qed

theorem Addr2FuncName_exact_hit_witness:
  "sorted (map Value (symbols example_pie_symbolizer)) \<and> (0x401010 :: uint64) \<noteq> 0 \<and>
   isPIE example_pie_symbolizer \<and> memoryStart example_pie_symbolizer \<le> 0x401010 \<and>
   1 < length (symbols example_pie_symbolizer) \<and>
   Value (symbols example_pie_symbolizer ! 1) =
     segmentOffset example_pie_symbolizer + (0x401010 - memoryStart example_pie_symbolizer) \<and>
   Value (symbols example_pie_symbolizer ! 0) \<noteq> Value (symbols example_pie_symbolizer ! 1) \<and>
   Addr2FuncName example_pie_symbolizer 0x401010 = ''fib''"
proof -
  have a: "(0x401010 :: uint64) \<noteq> 0" by simp
  have p: "isPIE example_pie_symbolizer" "memoryStart example_pie_symbolizer \<le> 0x401010"
    by (simp_all add: example_pie_symbolizer_def)
  have b: "isPIE example_pie_symbolizer \<longrightarrow> memoryStart example_pie_symbolizer \<le> 0x401010"
    using p by simp
  have c: "1 < length (symbols example_pie_symbolizer)"
    by (simp add: example_pie_symbolizer_def)
  have v: "Value (symbols example_pie_symbolizer ! 1) =
     segmentOffset example_pie_symbolizer + (0x401010 - memoryStart example_pie_symbolizer)"
    by (simp add: example_pie_symbolizer_def)
  have d: "Value (symbols example_pie_symbolizer ! 1) =
     (if isPIE example_pie_symbolizer
      then segmentOffset example_pie_symbolizer + (0x401010 - memoryStart example_pie_symbolizer)
      else 0x401010)"
    using v p by simp
  have n: "Value (symbols example_pie_symbolizer ! 0) \<noteq> Value (symbols example_pie_symbolizer ! 1)"
    by (simp add: example_pie_symbolizer_def)
  have e: "\<forall>j<1. Value (symbols example_pie_symbolizer ! j) \<noteq> Value (symbols example_pie_symbolizer ! 1)"
    using n by simp
  have "Addr2FuncName example_pie_symbolizer 0x401010 = Name (symbols example_pie_symbolizer ! 1)"
    by (rule Addr2FuncName_exact_hit [OF sorted_example_pie_symbolizer a b c d e])
  then have f: "Addr2FuncName example_pie_symbolizer 0x401010 = ''fib''"
    by (simp add: example_pie_symbolizer_def)
  show ?thesis by (intro conjI sorted_example_pie_symbolizer a p c v n f)
qed

theorem Addr2FuncName_exact_hit_counterexample:
  "sorted (map Value (symbols example_symbolizer)) \<and>
   Value (symbols example_symbolizer ! 0) = 0 \<and>
   Addr2FuncName example_symbolizer 0 \<noteq> Name (symbols example_symbolizer ! 0) \<and>
   Value (symbols example_symbolizer ! 5) = 0x404020 \<and>
   Addr2FuncName example_symbolizer 0x404020 \<noteq> Name (symbols example_symbolizer ! 5)"
proof -
  have z: "Addr2FuncName example_symbolizer 0 \<noteq> Name (symbols example_symbolizer ! 0)"
    by (simp add: Addr2FuncName_zero notfound_def example_symbolizer_def)
  have first: "\<forall>j<4. Value (symbols example_symbolizer ! j) \<noteq> 0x404020"
  proof (intro allI impI)
    fix j :: nat assume "j < 4"
    then consider "j = 0" | "j = 1" | "j = 2" | "j = 3" by arith
    then show "Value (symbols example_symbolizer ! j) \<noteq> 0x404020"
      by cases (simp_all add: example_symbolizer_def)
  qed
  have "searchSymbols (symbols example_symbolizer) 0x404020 = Name (symbols example_symbolizer ! 4)"
    by (rule searchSymbols_exact [OF sorted_example_symbolizer _ _ first])
       (simp_all add: example_symbolizer_def)
  then have "Addr2FuncName example_symbolizer 0x404020 = ''__data_start''"
    by (simp add: Addr2FuncName_def example_symbolizer_def)
  then have t: "Addr2FuncName example_symbolizer 0x404020 \<noteq> Name (symbols example_symbolizer ! 5)"
    by (simp add: example_symbolizer_def)
  have v: "Value (symbols example_symbolizer ! 0) = 0" "Value (symbols example_symbolizer ! 5) = 0x404020"
    by (simp_all add: example_symbolizer_def)
  show ?thesis by (intro conjI sorted_example_symbolizer z t v)
qed

text \<open>
  C7, as amended. Let \<open>t\<close> be the address searched: \<open>addr\<close> itself, or on a
  position-independent binary \<open>segmentOffset + (addr - memoryStart)\<close>, for a nonzero
  \<open>addr\<close> not below \<open>memoryStart\<close>. If \<open>t\<close> lies strictly between two adjacent
  symbols \<open>S\<close> and \<open>T\<close> of the sorted table, \<open>Addr2FuncName\<close> returns the name of
  \<open>S\<close> when the value of \<open>S\<close> is nonzero and \<open>?\<close> when it is zero; it returns
  \<open>?\<close> when \<open>t\<close> is below the first symbol and when every symbol is below \<open>t\<close>.
\<close>

theorem Addr2FuncName_between:
  assumes "sorted (map Value (symbols s))"
    and "isPIE s \<longrightarrow> addr \<noteq> 0 \<and> memoryStart s \<le> addr"
    and "t = (if isPIE s then segmentOffset s + (addr - memoryStart s) else addr)"
  shows "(Suc i < length (symbols s) \<and> Value (symbols s ! i) < t \<and> t < Value (symbols s ! Suc i) \<longrightarrow>
            Addr2FuncName s addr =
              (if Value (symbols s ! i) \<noteq> 0 then Name (symbols s ! i) else notfound)) \<and>
         (symbols s \<noteq> [] \<and> t < Value (symbols s ! 0) \<longrightarrow> Addr2FuncName s addr = notfound) \<and>
         ((\<forall>x\<in>set (symbols s). Value x < t) \<longrightarrow> Addr2FuncName s addr = notfound)"
proof (cases "addr = 0")
  case True
  then have np: "\<not> isPIE s" and t0: "t = 0" using assms(2,3) by auto
  have "\<not> Value (symbols s ! i) < t" using t0 by simp
  then show ?thesis using True by (simp add: Addr2FuncName_zero)
next
  case False
  have eq: "Addr2FuncName s addr = searchSymbols (symbols s) t"
    using Addr2FuncName_searched [of addr s] False assms(2,3) by simp
  show ?thesis
    unfolding eq
    using searchSymbols_between [OF assms(1), of i t] searchSymbols_before_first [OF assms(1), of t]
      searchSymbols_past_end [of "symbols s" t]
    by blast
qed

theorem Addr2FuncName_between_witness:
  "sorted (map Value (symbols example_symbolizer)) \<and> \<not> isPIE example_symbolizer \<and>
   Suc 2 < length (symbols example_symbolizer) \<and>
   Value (symbols example_symbolizer ! 2) < 0x40112c \<and>
   0x40112c < Value (symbols example_symbolizer ! Suc 2) \<and>
   Value (symbols example_symbolizer ! 2) \<noteq> 0 \<and>
   Addr2FuncName example_symbolizer 0x40112c = ''fibNaive''"
proof -
  have p: "\<not> isPIE example_symbolizer" by (simp add: example_symbolizer_def)
  have a: "isPIE example_symbolizer \<longrightarrow>
      (0x40112c :: uint64) \<noteq> 0 \<and> memoryStart example_symbolizer \<le> 0x40112c"
    using p by simp
  have b: "0x40112c = (if isPIE example_symbolizer
      then segmentOffset example_symbolizer + (0x40112c - memoryStart example_symbolizer)
      else 0x40112c)"
    using p by simp
  have c: "Suc 2 < length (symbols example_symbolizer)"
    "Value (symbols example_symbolizer ! 2) < 0x40112c"
    "0x40112c < Value (symbols example_symbolizer ! Suc 2)"
    "Value (symbols example_symbolizer ! 2) \<noteq> 0"
    by (simp_all add: example_symbolizer_def)
  have "Addr2FuncName example_symbolizer 0x40112c = Name (symbols example_symbolizer ! 2)"
    using Addr2FuncName_between [OF sorted_example_symbolizer a b, of 2] c by simp
  then have d: "Addr2FuncName example_symbolizer 0x40112c = ''fibNaive''"
    by (simp add: example_symbolizer_def)
  show ?thesis by (intro conjI sorted_example_symbolizer p c d)
qed

theorem Addr2FuncName_between_counterexample:
  "sorted (map Value (symbols example_pie_symbolizer)) \<and>
   Suc 0 < length (symbols example_pie_symbolizer) \<and>
   Value (symbols example_pie_symbolizer ! 0) < 0x1008 \<and>
   0x1008 < Value (symbols example_pie_symbolizer ! Suc 0) \<and>
   Value (symbols example_pie_symbolizer ! 0) \<noteq> 0 \<and>
   Addr2FuncName example_pie_symbolizer 0x1008 = ''?'' \<and>
   Addr2FuncName example_pie_symbolizer 0x1008 \<noteq> Name (symbols example_pie_symbolizer ! 0) \<and>
   Addr2FuncName example_pie_symbolizer 0x401008 = Name (symbols example_pie_symbolizer ! 0)"
proof -
  have a: "Suc 0 < length (symbols example_pie_symbolizer)"
    "Value (symbols example_pie_symbolizer ! 0) < 0x1008"
    "0x1008 < Value (symbols example_pie_symbolizer ! Suc 0)"
    "Value (symbols example_pie_symbolizer ! 0) \<noteq> 0"
    by (simp_all add: example_pie_symbolizer_def)
  have b: "Addr2FuncName example_pie_symbolizer 0x1008 = ''?''"
    "Addr2FuncName example_pie_symbolizer 0x1008 \<noteq> Name (symbols example_pie_symbolizer ! 0)"
    by (simp_all add: Addr2FuncName_def example_pie_symbolizer_def notfound_def)
  have "Addr2FuncName example_pie_symbolizer 0x401008 =
      searchSymbols (symbols example_pie_symbolizer) 0x1008"
    by (simp add: Addr2FuncName_def example_pie_symbolizer_def)
  also have "\<dots> = Name (symbols example_pie_symbolizer ! 0)"
    using searchSymbols_between [OF sorted_example_pie_symbolizer a(1-3)] a(4) by simp
  finally have c: "Addr2FuncName example_pie_symbolizer 0x401008 =
      Name (symbols example_pie_symbolizer ! 0)" .
  show ?thesis by (intro conjI sorted_example_pie_symbolizer a b c)
qed

section \<open>Making a symbolizer\<close>

lemma findSegment_first:
  "i < length ps \<Longrightarrow> Off (ps ! i) = fileOffset \<Longrightarrow> (\<forall>j<i. Off (ps ! j) \<noteq> fileOffset) \<Longrightarrow>
     findSegment ps fileOffset = ps ! i"
proof (induction ps arbitrary: i)
  case Nil
  then show ?case by simp
next
  case (Cons p ps)
  show ?case
  proof (cases i)
    case 0
    then show ?thesis using Cons.prems by simp
  next
    case (Suc k)
    have "Off p \<noteq> fileOffset" using Cons.prems(3) Suc by (metis nth_Cons_0 zero_less_Suc)
    moreover have "\<forall>j<k. Off (ps ! j) \<noteq> fileOffset"
      using Cons.prems(3) Suc by (metis Suc_less_eq nth_Cons_Suc)
    ultimately show ?thesis using Cons.IH [of k] Cons.prems(1,2) Suc by simp
  qed
qed

lemma findSegment_not_loadable:
  "\<forall>p\<in>set ps. Off p = fileOffset \<longrightarrow> Type p \<noteq> PT_LOAD \<Longrightarrow>
     Type (findSegment ps fileOffset) \<noteq> PT_LOAD"
  by (induction ps) (simp_all add: PT_LOAD_def)

lemma findSegment_Off:
  "Type (findSegment ps fileOffset) = PT_LOAD \<Longrightarrow> Off (findSegment ps fileOffset) = fileOffset"
  by (induction ps) (auto simp: PT_LOAD_def split: if_splits)

lemma newSymbolizer_Inr:
  assumes "newSymbolizer f fileOffset memStart = Inr s"
  shows "segmentOffset s = fileOffset \<and> memoryStart s = memStart \<and>
         sorted (map Value (symbols s))"
proof -
  obtain syms where syms: "Symbols f = Inr syms"
    using assms by (cases "Symbols f") (simp_all add: newSymbolizer_def)
  have load: "Type (findSegment (Progs f) fileOffset) = PT_LOAD"
    using assms syms by (simp add: newSymbolizer_def Let_def split: if_splits)
  have "s = \<lparr>symbols = sort_key Value syms,
             segmentOffset = Off (findSegment (Progs f) fileOffset),
             memoryStart = memStart,
             isPIE = (Vaddr (findSegment (Progs f) fileOffset) =
                      Off (findSegment (Progs f) fileOffset))\<rparr>"
    using assms syms load by (simp add: newSymbolizer_def Let_def)
  then show ?thesis using findSegment_Off [OF load] by simp
qed

lemma newSymbolizer_example_pie_file:
  "newSymbolizer example_pie_file 0x1000 0x401000 = Inr example_pie_symbolizer"
  by (simp add: newSymbolizer_def example_pie_file_def example_pie_symbolizer_def PT_LOAD_def)

text \<open>
  C8. With the symbolizer of a position-independent binary, \<open>Addr2FuncName\<close> returns
  \<open>?\<close> for every address below \<open>memoryStart\<close>, and for every other nonzero address
  it searches the table for \<open>fileOffset + (a - memoryStart)\<close>. With any symbolizer it
  returns \<open>?\<close> for the address zero.
\<close>

theorem Addr2FuncName_PIE:
  assumes "newSymbolizer f fileOffset memStart = Inr s" and "isPIE s"
  shows "(a < memStart \<longrightarrow> Addr2FuncName s a = notfound) \<and>
         (memStart \<le> a \<and> a \<noteq> 0 \<longrightarrow>
            Addr2FuncName s a = searchSymbols (symbols s) (fileOffset + (a - memStart))) \<and>
         (\<forall>s'. Addr2FuncName s' 0 = notfound) \<and> notfound = ''?''"
proof -
  have s: "segmentOffset s = fileOffset" "memoryStart s = memStart"
    using newSymbolizer_Inr [OF assms(1)] by simp_all
  have 1: "a < memStart \<longrightarrow> Addr2FuncName s a = notfound"
    using assms(2) s by (simp add: Addr2FuncName_def)
  have 2: "memStart \<le> a \<and> a \<noteq> 0 \<longrightarrow>
            Addr2FuncName s a = searchSymbols (symbols s) (fileOffset + (a - memStart))"
    using assms(2) s by (simp add: Addr2FuncName_def Let_def not_less [symmetric])
  have 3: "\<forall>s'. Addr2FuncName s' 0 = notfound" by (simp add: Addr2FuncName_zero)
  show ?thesis using 1 2 3 by (simp add: notfound_def)
qed

theorem Addr2FuncName_PIE_witness:
  "newSymbolizer example_pie_file 0x1000 0x401000 = Inr example_pie_symbolizer \<and>
   isPIE example_pie_symbolizer \<and>
   (123 :: uint64) < 0x401000 \<and> Addr2FuncName example_pie_symbolizer 123 = notfound \<and>
   (0x401000 :: uint64) \<le> 0x401020 \<and> (0x401020 :: uint64) \<noteq> 0 \<and>
   Addr2FuncName example_pie_symbolizer 0x401020 =
     searchSymbols (symbols example_pie_symbolizer) (0x1000 + (0x401020 - 0x401000)) \<and>
   Addr2FuncName example_pie_symbolizer 0 = notfound \<and> notfound = ''?''"
proof -
  have p: "isPIE example_pie_symbolizer" by (simp add: example_pie_symbolizer_def)
  have a: "(123 :: uint64) < 0x401000" by simp
  have b: "(0x401000 :: uint64) \<le> 0x401020 \<and> (0x401020 :: uint64) \<noteq> 0" by simp
  show ?thesis
    using Addr2FuncName_PIE [OF newSymbolizer_example_pie_file p, of 123]
      Addr2FuncName_PIE [OF newSymbolizer_example_pie_file p, of "0x401020"]
      newSymbolizer_example_pie_file p a b
    by blast
qed

text \<open>
  C9, as amended. When the symbols of the file can be read, \<open>newSymbolizer\<close> fails with
  the segment-not-found error if no header with the offset \<open>fileOffset\<close> is loadable, and
  it succeeds if the first header with that offset is loadable: the symbolizer then has
  the symbols sorted by value, the offset and the given \<open>memoryStart\<close>, and \<open>isPIE\<close>
  says whether the virtual address of that header is its offset.
\<close>

theorem newSymbolizer_segment:
  assumes "Symbols f = Inr syms"
  shows "((\<forall>p\<in>set (Progs f). Off p = fileOffset \<longrightarrow> Type p \<noteq> PT_LOAD) \<longrightarrow>
            newSymbolizer f fileOffset memStart = Inl (SegmentNotFound fileOffset)) \<and>
         (i < length (Progs f) \<and> Off (Progs f ! i) = fileOffset \<and>
          (\<forall>j<i. Off (Progs f ! j) \<noteq> fileOffset) \<and> Type (Progs f ! i) = PT_LOAD \<longrightarrow>
            newSymbolizer f fileOffset memStart =
              Inr \<lparr>symbols = sort_key Value syms, segmentOffset = fileOffset,
                   memoryStart = memStart,
                   isPIE = (Vaddr (Progs f ! i) = Off (Progs f ! i))\<rparr>) \<and>
         sorted (map Value (sort_key Value syms))"
proof -
  have 1: "newSymbolizer f fileOffset memStart = Inl (SegmentNotFound fileOffset)"
    if "\<forall>p\<in>set (Progs f). Off p = fileOffset \<longrightarrow> Type p \<noteq> PT_LOAD"
    using findSegment_not_loadable [OF that] assms by (simp add: newSymbolizer_def Let_def)
  have 2: "newSymbolizer f fileOffset memStart =
              Inr \<lparr>symbols = sort_key Value syms, segmentOffset = fileOffset,
                   memoryStart = memStart,
                   isPIE = (Vaddr (Progs f ! i) = Off (Progs f ! i))\<rparr>"
    if h: "i < length (Progs f) \<and> Off (Progs f ! i) = fileOffset \<and>
          (\<forall>j<i. Off (Progs f ! j) \<noteq> fileOffset) \<and> Type (Progs f ! i) = PT_LOAD"
  proof -
    have "findSegment (Progs f) fileOffset = Progs f ! i"
      using h by (intro findSegment_first) simp_all
    then show ?thesis using h assms by (simp add: newSymbolizer_def Let_def)
  qed
  have 3: "sorted (map Value (sort_key Value syms))" by simp
  show ?thesis using 1 2 3 by blast
qed

theorem newSymbolizer_segment_witness:
  "Symbols example_pie_file =
     Inr [\<lparr>Name = ''fib'', Value = 0x1010\<rparr>, \<lparr>Name = ''main'', Value = 0x1000\<rparr>] \<and>
   map Off (Progs example_pie_file) = [0x40, 0, 0x1000] \<and>
   newSymbolizer example_pie_file 0x2000 0x401000 = Inl (SegmentNotFound 0x2000) \<and>
   Type (Progs example_pie_file ! 2) = PT_LOAD \<and>
   newSymbolizer example_pie_file 0x1000 0x401000 =
     Inr \<lparr>symbols = [\<lparr>Name = ''main'', Value = 0x1000\<rparr>, \<lparr>Name = ''fib'', Value = 0x1010\<rparr>],
          segmentOffset = 0x1000, memoryStart = 0x401000, isPIE = True\<rparr>"
proof -
  have s: "Symbols example_pie_file =
     Inr [\<lparr>Name = ''fib'', Value = 0x1010\<rparr>, \<lparr>Name = ''main'', Value = 0x1000\<rparr>]"
    by (simp add: example_pie_file_def)
  have o: "map Off (Progs example_pie_file) = [0x40, 0, 0x1000]"
    by (simp add: example_pie_file_def)
  have a: "\<forall>p\<in>set (Progs example_pie_file). Off p = 0x2000 \<longrightarrow> Type p \<noteq> PT_LOAD"
    by (simp add: example_pie_file_def)
  have b: "2 < length (Progs example_pie_file)" "Off (Progs example_pie_file ! 2) = 0x1000"
    by (simp_all add: example_pie_file_def)
  have t: "Type (Progs example_pie_file ! 2) = PT_LOAD"
    by (simp add: example_pie_file_def)
  have c: "\<forall>j<2. Off (Progs example_pie_file ! j) \<noteq> 0x1000"
  proof (intro allI impI)
    fix j :: nat assume "j < 2"
    then consider "j = 0" | "j = 1" by arith
    then show "Off (Progs example_pie_file ! j) \<noteq> 0x1000"
      by cases (simp_all add: example_pie_file_def)
  qed
  have v: "Vaddr (Progs example_pie_file ! 2) = Off (Progs example_pie_file ! 2)"
    by (simp add: example_pie_file_def)
  have d: "newSymbolizer example_pie_file 0x2000 0x401000 = Inl (SegmentNotFound 0x2000)"
    using newSymbolizer_segment [OF s, where fileOffset = "0x2000" and i = 0
        and memStart = "0x401000"] a by blast
  have "newSymbolizer example_pie_file 0x1000 0x401000 =
     Inr \<lparr>symbols = sort_key Value [\<lparr>Name = ''fib'', Value = 0x1010\<rparr>, \<lparr>Name = ''main'', Value = 0x1000\<rparr>],
          segmentOffset = 0x1000, memoryStart = 0x401000,
          isPIE = (Vaddr (Progs example_pie_file ! 2) = Off (Progs example_pie_file ! 2))\<rparr>"
    using newSymbolizer_segment [OF s, where fileOffset = "0x1000" and i = 2
        and memStart = "0x401000"] b t c by blast
  then have e: "newSymbolizer example_pie_file 0x1000 0x401000 =
     Inr \<lparr>symbols = [\<lparr>Name = ''main'', Value = 0x1000\<rparr>, \<lparr>Name = ''fib'', Value = 0x1010\<rparr>],
          segmentOffset = 0x1000, memoryStart = 0x401000, isPIE = True\<rparr>"
    using v by simp
  show ?thesis by (intro conjI s o d t e)
qed

theorem newSymbolizer_segment_counterexample:
  "Type (Progs example_stripped_file ! 0) = PT_LOAD \<and> Off (Progs example_stripped_file ! 0) = 0x1000 \<and>
   newSymbolizer example_stripped_file 0x1000 0x401000 =
     Inl (FailedToGetSymbols ''no symbol section'') \<and>
   Type (Progs example_shadowed_file ! 1) = PT_LOAD \<and> Off (Progs example_shadowed_file ! 1) = 0x1000 \<and>
   newSymbolizer example_shadowed_file 0x1000 0x401000 = Inl (SegmentNotFound 0x1000)"
  by (simp add: newSymbolizer_def example_stripped_file_def example_shadowed_file_def PT_LOAD_def)

section \<open>The loops of fillProfile\<close>

lemma addLocation_zero: "addLocation pid mm 0 st = st"
  by (simp add: addLocation_def split: prod.splits)

lemma addLocation_found:
  "addr \<noteq> 0 \<Longrightarrow> L (pid, addr) = Some i \<Longrightarrow>
     addLocation pid mm addr (prof, L, sl) = (prof, L, sl @ [i])"
  by (simp add: addLocation_def)

lemma addLocation_new:
  "addr \<noteq> 0 \<Longrightarrow> L (pid, addr) = None \<Longrightarrow>
     addLocation pid mm addr (prof, L, sl) =
       (prof\<lparr>Profile_Location := Profile_Location prof @
           [\<lparr>Location_ID = of_nat (length (Profile_Location prof) + 1), Address = addr,
             Location_Mapping = mappingForAddr mm addr\<rparr>]\<rparr>,
        L((pid, addr) \<mapsto> length (Profile_Location prof)),
        sl @ [length (Profile_Location prof)])"
  by (simp add: addLocation_def Let_def)

lemma funpow_addLocation_zero: "(addLocation pid mm 0 ^^ n) st = st"
  by (induction n) (simp_all add: addLocation_zero)

lemma locs_inv_empty: "locs_inv (length locs) pid mm locs Map.empty"
  by (simp add: locs_inv_def)

lemma locs_invD1:
  "locs_inv n0 pid mm locs L \<Longrightarrow> L k = Some i \<Longrightarrow>
     n0 \<le> i \<and> i < length locs \<and> k = (pid, Address (locs ! i))"
  unfolding locs_inv_def by blast

lemma locs_invD2:
  "locs_inv n0 pid mm locs L \<Longrightarrow> n0 \<le> i \<Longrightarrow> i < length locs \<Longrightarrow>
     L (pid, Address (locs ! i)) = Some i \<and> Address (locs ! i) \<noteq> 0 \<and>
     Location_Mapping (locs ! i) = mappingForAddr mm (Address (locs ! i)) \<and>
     Location_ID (locs ! i) = of_nat (i + 1)"
  unfolding locs_inv_def by blast

lemma locs_invD3: "locs_inv n0 pid mm locs L \<Longrightarrow> n0 \<le> length locs"
  unfolding locs_inv_def by blast

lemma locs_inv_new:
  assumes inv: "locs_inv n0 pid mm locs L" and nz: "addr \<noteq> 0" and new: "L (pid, addr) = None"
  shows "locs_inv n0 pid mm
           (locs @ [\<lparr>Location_ID = of_nat (length locs + 1), Address = addr,
                     Location_Mapping = mappingForAddr mm addr\<rparr>])
           (L((pid, addr) \<mapsto> length locs))"
proof -
  let ?l = "\<lparr>Location_ID = of_nat (length locs + 1), Address = addr,
              Location_Mapping = mappingForAddr mm addr\<rparr>"
  have old: "\<And>i. n0 \<le> i \<Longrightarrow> i < length locs \<Longrightarrow> Address (locs ! i) \<noteq> addr"
  proof
    fix i assume "n0 \<le> i" "i < length locs" "Address (locs ! i) = addr"
    then have "L (pid, addr) = Some i" using locs_invD2 [OF inv] by blast
    then show False using new by simp
  qed
  have A: "n0 \<le> length (locs @ [?l])" using locs_invD3 [OF inv] by simp
  have B: "n0 \<le> i \<and> i < length (locs @ [?l]) \<and> k = (pid, Address ((locs @ [?l]) ! i))"
    if h: "(L((pid, addr) \<mapsto> length locs)) k = Some i" for k i
  proof (cases "k = (pid, addr)")
    case True
    then have "i = length locs" using h by simp
    then show ?thesis using True locs_invD3 [OF inv] by simp
  next
    case False
    then have "L k = Some i" using h by simp
    then have "n0 \<le> i" "i < length locs" "k = (pid, Address (locs ! i))"
      using locs_invD1 [OF inv] by blast+
    then show ?thesis by (simp add: nth_append)
  qed
  have C: "(L((pid, addr) \<mapsto> length locs)) (pid, Address ((locs @ [?l]) ! i)) = Some i \<and>
          Address ((locs @ [?l]) ! i) \<noteq> 0 \<and>
          Location_Mapping ((locs @ [?l]) ! i) = mappingForAddr mm (Address ((locs @ [?l]) ! i)) \<and>
          Location_ID ((locs @ [?l]) ! i) = of_nat (i + 1)"
    if h: "n0 \<le> i \<and> i < length (locs @ [?l])" for i
  proof (cases "i < length locs")
    case True
    then have "L (pid, Address (locs ! i)) = Some i \<and> Address (locs ! i) \<noteq> 0 \<and>
        Location_Mapping (locs ! i) = mappingForAddr mm (Address (locs ! i)) \<and>
        Location_ID (locs ! i) = of_nat (i + 1)" "Address (locs ! i) \<noteq> addr"
      using locs_invD2 [OF inv] h old by blast+
    then show ?thesis using True by (simp add: nth_append)
  next
    case False
    then have "i = length locs" using h by simp
    then show ?thesis using nz by simp
  qed
  show ?thesis
    unfolding locs_inv_def
  proof (intro conjI)
    show "n0 \<le> length (locs @ [?l])" by (rule A)
    show "\<forall>k i. (L((pid, addr) \<mapsto> length locs)) k = Some i \<longrightarrow>
            n0 \<le> i \<and> i < length (locs @ [?l]) \<and> k = (pid, Address ((locs @ [?l]) ! i))"
      using B by blast
    show "\<forall>i. n0 \<le> i \<and> i < length (locs @ [?l]) \<longrightarrow>
          (L((pid, addr) \<mapsto> length locs)) (pid, Address ((locs @ [?l]) ! i)) = Some i \<and>
          Address ((locs @ [?l]) ! i) \<noteq> 0 \<and>
          Location_Mapping ((locs @ [?l]) ! i) = mappingForAddr mm (Address ((locs @ [?l]) ! i)) \<and>
          Location_ID ((locs @ [?l]) ! i) = of_nat (i + 1)"
      using C by blast
  qed
qed

lemma fold_addLocation:
  "locs_inv n0 pid mm (Profile_Location prof) L \<Longrightarrow>
   \<exists>news L' sl'.
     fold (addLocation pid mm) us (prof, L, sl) =
       (prof\<lparr>Profile_Location := Profile_Location prof @ news\<rparr>, L', sl @ sl') \<and>
     locs_inv n0 pid mm (Profile_Location prof @ news) L' \<and>
     map (\<lambda>j. Address ((Profile_Location prof @ news) ! j)) sl' = filter (\<lambda>a. a \<noteq> 0) us \<and>
     (\<forall>j\<in>set sl'. n0 \<le> j \<and> j < length (Profile_Location prof @ news))"
proof (induction us arbitrary: prof L sl)
  case Nil
  have "fold (addLocation pid mm) [] (prof, L, sl) =
          (prof\<lparr>Profile_Location := Profile_Location prof @ []\<rparr>, L, sl @ [])"
    by simp
  moreover have "locs_inv n0 pid mm (Profile_Location prof @ []) L"
    using Nil by simp
  ultimately show ?case by fastforce
next
  case (Cons a us)
  let ?locs = "Profile_Location prof"
  show ?case
  proof (cases "a = 0")
    case True
    then have "fold (addLocation pid mm) (a # us) (prof, L, sl) =
                 fold (addLocation pid mm) us (prof, L, sl)"
      by (simp add: addLocation_zero)
    then show ?thesis using Cons.IH [OF Cons.prems, of sl] True by simp
  next
    case nz: False
    show ?thesis
    proof (cases "L (pid, a)")
      case (Some i)
      have step: "fold (addLocation pid mm) (a # us) (prof, L, sl) =
                 fold (addLocation pid mm) us (prof, L, sl @ [i])"
        using nz Some by (simp add: addLocation_found)
      from Cons.IH [OF Cons.prems, of "sl @ [i]"] obtain news L' sl' where
        r: "fold (addLocation pid mm) us (prof, L, sl @ [i]) =
              (prof\<lparr>Profile_Location := ?locs @ news\<rparr>, L', (sl @ [i]) @ sl')"
        and inv': "locs_inv n0 pid mm (?locs @ news) L'"
        and addrs: "map (\<lambda>j. Address ((?locs @ news) ! j)) sl' = filter (\<lambda>a. a \<noteq> 0) us"
        and rng: "\<forall>j\<in>set sl'. n0 \<le> j \<and> j < length (?locs @ news)"
        by blast
      have i: "n0 \<le> i" "i < length ?locs" "Address (?locs ! i) = a"
        using locs_invD1 [OF Cons.prems Some] by simp_all
      have "fold (addLocation pid mm) (a # us) (prof, L, sl) =
              (prof\<lparr>Profile_Location := ?locs @ news\<rparr>, L', sl @ (i # sl'))"
        using step r by simp
      moreover have "map (\<lambda>j. Address ((?locs @ news) ! j)) (i # sl') =
                       filter (\<lambda>a. a \<noteq> 0) (a # us)"
        using addrs i nz by (simp add: nth_append)
      moreover have "\<forall>j\<in>set (i # sl'). n0 \<le> j \<and> j < length (?locs @ news)"
        using rng i by simp
      ultimately show ?thesis using inv' by blast
    next
      case None
      let ?l = "\<lparr>Location_ID = of_nat (length ?locs + 1), Address = a,
                  Location_Mapping = mappingForAddr mm a\<rparr>"
      let ?prof1 = "prof\<lparr>Profile_Location := ?locs @ [?l]\<rparr>"
      let ?L1 = "L((pid, a) \<mapsto> length ?locs)"
      have step: "fold (addLocation pid mm) (a # us) (prof, L, sl) =
                 fold (addLocation pid mm) us (?prof1, ?L1, sl @ [length ?locs])"
        using nz None by (simp add: addLocation_new)
      have inv1: "locs_inv n0 pid mm (Profile_Location ?prof1) ?L1"
        using locs_inv_new [OF Cons.prems nz None] by simp
      from Cons.IH [OF inv1, of "sl @ [length ?locs]"] obtain news L' sl' where
        r: "fold (addLocation pid mm) us (?prof1, ?L1, sl @ [length ?locs]) =
              (?prof1\<lparr>Profile_Location := Profile_Location ?prof1 @ news\<rparr>, L',
               (sl @ [length ?locs]) @ sl')"
        and inv': "locs_inv n0 pid mm (Profile_Location ?prof1 @ news) L'"
        and addrs: "map (\<lambda>j. Address ((Profile_Location ?prof1 @ news) ! j)) sl' =
                      filter (\<lambda>a. a \<noteq> 0) us"
        and rng: "\<forall>j\<in>set sl'. n0 \<le> j \<and> j < length (Profile_Location ?prof1 @ news)"
        by blast
      have "fold (addLocation pid mm) (a # us) (prof, L, sl) =
              (prof\<lparr>Profile_Location := ?locs @ (?l # news)\<rparr>, L', sl @ (length ?locs # sl'))"
        using step r by simp
      moreover have "locs_inv n0 pid mm (?locs @ (?l # news)) L'"
        using inv' by simp
      moreover have "map (\<lambda>j. Address ((?locs @ (?l # news)) ! j)) (length ?locs # sl') =
                       filter (\<lambda>a. a \<noteq> 0) (a # us)"
        using addrs nz by simp
      moreover have "\<forall>j\<in>set (length ?locs # sl'). n0 \<le> j \<and> j < length (?locs @ (?l # news))"
        using rng locs_invD3 [OF Cons.prems] by simp
      ultimately show ?thesis by blast
    qed
  qed
qed

lemma fillProfile_key_user_lookup_failed:
  "stackTraces (UserStackID key) = Inl err \<Longrightarrow>
     fillProfile_key stackTraces pid mm (key, seen) st = st"
  by (simp add: fillProfile_key_def split: prod.splits)

lemma fillProfile_key_user_read_failed:
  "stackTraces (UserStackID key) = Inr stackBytes \<Longrightarrow> binary_Read stackBytes = Inl err \<Longrightarrow>
     fillProfile_key stackTraces pid mm (key, seen) st = st"
  by (simp add: fillProfile_key_def split: prod.splits)

lemma fillProfile_key_kernel_lookup_failed:
  "stackTraces (KernelStackID key) = Inl err \<Longrightarrow>
     fillProfile_key stackTraces pid mm (key, seen) st = st"
  by (simp add: fillProfile_key_def split: prod.splits sum.splits)

lemma fillProfile_key_emit:
  assumes user: "stackTraces (UserStackID key) = Inr stackBytes"
    and read: "binary_Read stackBytes = Inr userStack"
    and kernel: "stackTraces (KernelStackID key) = Inr kernelBytes"
    and inv: "locs_inv n0 pid mm (Profile_Location prof) L"
  shows "\<exists>news L' sl.
     fillProfile_key stackTraces pid mm (key, seen) (prof, L) =
       (prof\<lparr>Profile_Sample := Profile_Sample prof @
                 [\<lparr>Sample_Value = [seen], Sample_Location = sl\<rparr>],
              Profile_Location := Profile_Location prof @ news\<rparr>, L') \<and>
     locs_inv n0 pid mm (Profile_Location prof @ news) L' \<and>
     map (\<lambda>j. Address ((Profile_Location prof @ news) ! j)) sl =
       filter (\<lambda>a. a \<noteq> 0) userStack \<and>
     (\<forall>j\<in>set sl. n0 \<le> j \<and> j < length (Profile_Location prof @ news))"
proof -
  from fold_addLocation [OF inv, of userStack "[]"] obtain news L' sl where
    r: "fold (addLocation pid mm) userStack (prof, L, []) =
          (prof\<lparr>Profile_Location := Profile_Location prof @ news\<rparr>, L', [] @ sl)"
    and inv': "locs_inv n0 pid mm (Profile_Location prof @ news) L'"
    and addrs: "map (\<lambda>j. Address ((Profile_Location prof @ news) ! j)) sl =
                  filter (\<lambda>a. a \<noteq> 0) userStack"
    and rng: "\<forall>j\<in>set sl. n0 \<le> j \<and> j < length (Profile_Location prof @ news)"
    by blast
  have "fillProfile_key stackTraces pid mm (key, seen) (prof, L) =
       (prof\<lparr>Profile_Sample := Profile_Sample prof @
                 [\<lparr>Sample_Value = [seen], Sample_Location = sl\<rparr>],
              Profile_Location := Profile_Location prof @ news\<rparr>, L')"
    using user read kernel r
    by (cases "binary_Read kernelBytes") (simp_all add: fillProfile_key_def appendSample_def)
  then show ?thesis using inv' addrs rng by blast
qed

lemma fillProfile_key_grows:
  assumes inv: "locs_inv n0 pid mm (Profile_Location prof) L"
  shows "\<exists>news samples L'.
     fillProfile_key stackTraces pid mm entry (prof, L) =
       (prof\<lparr>Profile_Sample := Profile_Sample prof @ samples,
              Profile_Location := Profile_Location prof @ news\<rparr>, L') \<and>
     locs_inv n0 pid mm (Profile_Location prof @ news) L' \<and>
     (\<forall>s\<in>set samples. \<forall>j\<in>set (Sample_Location s).
        n0 \<le> j \<and> j < length (Profile_Location prof @ news))"
proof -
  obtain key seen where entry: "entry = (key, seen)" by (cases entry)
  have same: ?thesis if "fillProfile_key stackTraces pid mm entry (prof, L) = (prof, L)"
  proof -
    have "fillProfile_key stackTraces pid mm entry (prof, L) =
       (prof\<lparr>Profile_Sample := Profile_Sample prof @ [],
              Profile_Location := Profile_Location prof @ []\<rparr>, L)"
      using that by simp
    moreover have "locs_inv n0 pid mm (Profile_Location prof @ []) L" using inv by simp
    ultimately show ?thesis by fastforce
  qed
  show ?thesis
  proof (cases "stackTraces (UserStackID key)")
    case (Inl err)
    then show ?thesis using same fillProfile_key_user_lookup_failed entry by metis
  next
    case user: (Inr stackBytes)
    show ?thesis
    proof (cases "binary_Read stackBytes")
      case (Inl err)
      then show ?thesis using same fillProfile_key_user_read_failed user entry by metis
    next
      case read: (Inr userStack)
      show ?thesis
      proof (cases "stackTraces (KernelStackID key)")
        case (Inl err)
        then show ?thesis using same fillProfile_key_kernel_lookup_failed entry by metis
      next
        case kernel: (Inr kernelBytes)
        from fillProfile_key_emit [OF user read kernel inv, of seen] obtain news L' sl where
          r: "fillProfile_key stackTraces pid mm (key, seen) (prof, L) =
            (prof\<lparr>Profile_Sample := Profile_Sample prof @
                 [\<lparr>Sample_Value = [seen], Sample_Location = sl\<rparr>],
              Profile_Location := Profile_Location prof @ news\<rparr>, L')"
          and inv': "locs_inv n0 pid mm (Profile_Location prof @ news) L'"
          and rng: "\<forall>j\<in>set sl. n0 \<le> j \<and> j < length (Profile_Location prof @ news)"
          by blast
        have "\<forall>s\<in>set [\<lparr>Sample_Value = [seen], Sample_Location = sl\<rparr>].
                \<forall>j\<in>set (Sample_Location s).
                  n0 \<le> j \<and> j < length (Profile_Location prof @ news)"
          using rng by simp
        then show ?thesis using r inv' entry by blast
      qed
    qed
  qed
qed

lemma fold_fillProfile_key:
  "locs_inv n0 pid mm (Profile_Location prof) L \<Longrightarrow>
   \<exists>news samples L'.
     fold (fillProfile_key stackTraces pid mm) counts (prof, L) =
       (prof\<lparr>Profile_Sample := Profile_Sample prof @ samples,
              Profile_Location := Profile_Location prof @ news\<rparr>, L') \<and>
     locs_inv n0 pid mm (Profile_Location prof @ news) L' \<and>
     (\<forall>s\<in>set samples. \<forall>j\<in>set (Sample_Location s).
        n0 \<le> j \<and> j < length (Profile_Location prof @ news))"
proof (induction counts arbitrary: prof L)
  case Nil
  have "fold (fillProfile_key stackTraces pid mm) [] (prof, L) =
       (prof\<lparr>Profile_Sample := Profile_Sample prof @ [],
              Profile_Location := Profile_Location prof @ []\<rparr>, L)"
    by simp
  moreover have "locs_inv n0 pid mm (Profile_Location prof @ []) L" using Nil by simp
  ultimately show ?case by fastforce
next
  case (Cons entry counts)
  from fillProfile_key_grows [OF Cons.prems, of stackTraces entry] obtain news1 samples1 L1 where
    r1: "fillProfile_key stackTraces pid mm entry (prof, L) =
       (prof\<lparr>Profile_Sample := Profile_Sample prof @ samples1,
              Profile_Location := Profile_Location prof @ news1\<rparr>, L1)"
    and inv1: "locs_inv n0 pid mm (Profile_Location prof @ news1) L1"
    and rng1: "\<forall>s\<in>set samples1. \<forall>j\<in>set (Sample_Location s).
        n0 \<le> j \<and> j < length (Profile_Location prof @ news1)"
    by blast
  let ?prof1 = "prof\<lparr>Profile_Sample := Profile_Sample prof @ samples1,
              Profile_Location := Profile_Location prof @ news1\<rparr>"
  have inv1': "locs_inv n0 pid mm (Profile_Location ?prof1) L1" using inv1 by simp
  from Cons.IH [OF inv1'] obtain news2 samples2 L2 where
    r2: "fold (fillProfile_key stackTraces pid mm) counts (?prof1, L1) =
       (?prof1\<lparr>Profile_Sample := Profile_Sample ?prof1 @ samples2,
              Profile_Location := Profile_Location ?prof1 @ news2\<rparr>, L2)"
    and inv2: "locs_inv n0 pid mm (Profile_Location ?prof1 @ news2) L2"
    and rng2: "\<forall>s\<in>set samples2. \<forall>j\<in>set (Sample_Location s).
        n0 \<le> j \<and> j < length (Profile_Location ?prof1 @ news2)"
    by blast
  have "fold (fillProfile_key stackTraces pid mm) (entry # counts) (prof, L) =
       (prof\<lparr>Profile_Sample := Profile_Sample prof @ (samples1 @ samples2),
              Profile_Location := Profile_Location prof @ (news1 @ news2)\<rparr>, L2)"
    using r1 r2 by simp
  moreover have "locs_inv n0 pid mm (Profile_Location prof @ (news1 @ news2)) L2"
    using inv2 by simp
  moreover have "\<forall>s\<in>set (samples1 @ samples2). \<forall>j\<in>set (Sample_Location s).
        n0 \<le> j \<and> j < length (Profile_Location prof @ (news1 @ news2))"
    using rng1 rng2 by fastforce
  ultimately show ?case by blast
qed

lemma fold_fillProfile_key_result:
  obtains news samples L' where
    "fold (fillProfile_key stackTraces pid mm) counts (prof, Map.empty) =
       (prof\<lparr>Profile_Sample := Profile_Sample prof @ samples,
              Profile_Location := Profile_Location prof @ news\<rparr>, L')"
    "locs_inv (length (Profile_Location prof)) pid mm (Profile_Location prof @ news) L'"
  using fold_fillProfile_key [OF locs_inv_empty, where stackTraces = stackTraces
      and counts = counts and prof = prof and pid = pid and mm = mm]
  by blast

lemma fillProfile_shape:
  "\<exists>news samples L'.
     fillProfile counts stackTraces prof pid mm =
       prof\<lparr>Profile_Sample := Profile_Sample prof @ samples,
            Profile_Mapping := map (\<lambda>(i, m). m\<lparr>Mapping_ID := of_nat (i + 1)\<rparr>) (enumerate 0 mm),
            Profile_Location := Profile_Location prof @ news\<rparr> \<and>
     locs_inv (length (Profile_Location prof)) pid mm (Profile_Location prof @ news) L' \<and>
     (\<forall>s\<in>set samples. \<forall>j\<in>set (Sample_Location s).
        length (Profile_Location prof) \<le> j \<and> j < length (Profile_Location prof @ news))"
proof -
  from fold_fillProfile_key [OF locs_inv_empty, where stackTraces = stackTraces and counts = counts
      and prof = prof and pid = pid and mm = mm]
  obtain news samples L' where
    r: "fold (fillProfile_key stackTraces pid mm) counts (prof, Map.empty) =
       (prof\<lparr>Profile_Sample := Profile_Sample prof @ samples,
              Profile_Location := Profile_Location prof @ news\<rparr>, L')"
    and inv: "locs_inv (length (Profile_Location prof)) pid mm (Profile_Location prof @ news) L'"
    and rng: "\<forall>s\<in>set samples. \<forall>j\<in>set (Sample_Location s).
        length (Profile_Location prof) \<le> j \<and> j < length (Profile_Location prof @ news)"
    by blast
  have "fillProfile counts stackTraces prof pid mm =
       prof\<lparr>Profile_Sample := Profile_Sample prof @ samples,
            Profile_Mapping := map (\<lambda>(i, m). m\<lparr>Mapping_ID := of_nat (i + 1)\<rparr>) (enumerate 0 mm),
            Profile_Location := Profile_Location prof @ news\<rparr>"
    using r by (simp add: fillProfile_def)
  then show ?thesis using inv rng by blast
qed

lemma Profile_Mapping_fillProfile:
  "Profile_Mapping (fillProfile counts stackTraces prof pid mm) =
     map (\<lambda>(i, m). m\<lparr>Mapping_ID := of_nat (i + 1)\<rparr>) (enumerate 0 mm)"
  using fillProfile_shape [of counts stackTraces prof pid mm] by auto

lemma fillProfile_at_key:
  fixes before after :: "(stackCountKey \<times> uint64) list" and prof :: Profile and pid :: int
    and mm :: "Mapping list" and seen :: uint64
  assumes user: "stackTraces (UserStackID key) = Inr stackBytes"
    and read: "binary_Read stackBytes = Inr userStack"
    and kernel: "stackTraces (KernelStackID key) = Inr kernelBytes"
  defines "p \<equiv> fillProfile (before @ (key, seen) # after) stackTraces prof pid mm"
    and "n \<equiv> length (Profile_Sample (fillProfile before stackTraces prof pid mm))"
  shows "\<exists>sl. n < length (Profile_Sample p) \<and>
     Profile_Sample p ! n = \<lparr>Sample_Value = [seen], Sample_Location = sl\<rparr> \<and>
     map (\<lambda>j. Address (Profile_Location p ! j)) sl = filter (\<lambda>a. a \<noteq> 0) userStack \<and>
     (\<forall>j\<in>set sl. length (Profile_Location prof) \<le> j \<and> j < length (Profile_Location p) \<and>
        Location_Mapping (Profile_Location p ! j) =
          mappingForAddr mm (Address (Profile_Location p ! j)) \<and>
        Location_ID (Profile_Location p ! j) = of_nat (j + 1))"
proof -
  let ?n0 = "length (Profile_Location prof)"
  let ?f = "fillProfile_key stackTraces pid mm"
  obtain news1 samples1 L1 where
    r1: "fold ?f before (prof, Map.empty) =
       (prof\<lparr>Profile_Sample := Profile_Sample prof @ samples1,
              Profile_Location := Profile_Location prof @ news1\<rparr>, L1)"
    and inv1: "locs_inv ?n0 pid mm (Profile_Location prof @ news1) L1"
    by (rule fold_fillProfile_key_result)
  let ?p1 = "prof\<lparr>Profile_Sample := Profile_Sample prof @ samples1,
              Profile_Location := Profile_Location prof @ news1\<rparr>"
  have inv1': "locs_inv ?n0 pid mm (Profile_Location ?p1) L1" using inv1 by simp
  from fillProfile_key_emit [OF user read kernel inv1', of seen] obtain news2 L2 sl where
    r2: "?f (key, seen) (?p1, L1) =
       (?p1\<lparr>Profile_Sample := Profile_Sample ?p1 @
                 [\<lparr>Sample_Value = [seen], Sample_Location = sl\<rparr>],
              Profile_Location := Profile_Location ?p1 @ news2\<rparr>, L2)"
    and inv2: "locs_inv ?n0 pid mm (Profile_Location ?p1 @ news2) L2"
    and addrs: "map (\<lambda>j. Address ((Profile_Location ?p1 @ news2) ! j)) sl =
       filter (\<lambda>a. a \<noteq> 0) userStack"
    and rng: "\<forall>j\<in>set sl. ?n0 \<le> j \<and> j < length (Profile_Location ?p1 @ news2)"
    by blast
  let ?p2 = "?p1\<lparr>Profile_Sample := Profile_Sample ?p1 @
                 [\<lparr>Sample_Value = [seen], Sample_Location = sl\<rparr>],
              Profile_Location := Profile_Location ?p1 @ news2\<rparr>"
  have inv2': "locs_inv ?n0 pid mm (Profile_Location ?p2) L2" using inv2 by simp
  from fold_fillProfile_key [OF inv2', of stackTraces after] obtain news3 samples3 L3 where
    r3: "fold ?f after (?p2, L2) =
       (?p2\<lparr>Profile_Sample := Profile_Sample ?p2 @ samples3,
              Profile_Location := Profile_Location ?p2 @ news3\<rparr>, L3)"
    and inv3: "locs_inv ?n0 pid mm (Profile_Location ?p2 @ news3) L3"
    by blast
  have whole: "fold ?f (before @ (key, seen) # after) (prof, Map.empty) =
       (?p2\<lparr>Profile_Sample := Profile_Sample ?p2 @ samples3,
              Profile_Location := Profile_Location ?p2 @ news3\<rparr>, L3)"
    using r1 r2 r3 by simp
  have n: "n = length (Profile_Sample prof @ samples1)"
    unfolding n_def fillProfile_def using r1 by simp
  have S: "Profile_Sample p = (Profile_Sample prof @ samples1) @
             \<lparr>Sample_Value = [seen], Sample_Location = sl\<rparr> # samples3"
    unfolding p_def fillProfile_def using whole by simp
  have PLp: "Profile_Location p = ((Profile_Location prof @ news1) @ news2) @ news3"
    unfolding p_def fillProfile_def using whole by simp
  have nth: "Profile_Sample p ! n = \<lparr>Sample_Value = [seen], Sample_Location = sl\<rparr>"
    unfolding S n by (rule nth_append_length)
  have lt: "n < length (Profile_Sample p)" unfolding S n by simp
  have same: "Profile_Location p ! j = ((Profile_Location prof @ news1) @ news2) ! j"
    if "j \<in> set sl" for j
  proof -
    have "j < length ((Profile_Location prof @ news1) @ news2)" using rng that by simp
    then show ?thesis unfolding PLp by (rule nth_append_left)
  qed
  have a: "map (\<lambda>j. Address (Profile_Location p ! j)) sl = filter (\<lambda>a. a \<noteq> 0) userStack"
  proof -
    have e: "map (\<lambda>j. Address (Profile_Location p ! j)) sl =
          map (\<lambda>j. Address (((Profile_Location prof @ news1) @ news2) ! j)) sl"
      using same by (intro map_cong) simp_all
    have addrs': "map (\<lambda>j. Address (((Profile_Location prof @ news1) @ news2) ! j)) sl =
       filter (\<lambda>a. a \<noteq> 0) userStack"
      using addrs by simp
    show ?thesis by (rule trans [OF e addrs'])
  qed
  have inv3': "locs_inv ?n0 pid mm (Profile_Location p) L3"
    using inv3 unfolding PLp by simp
  have b: "\<forall>j\<in>set sl. ?n0 \<le> j \<and> j < length (Profile_Location p) \<and>
        Location_Mapping (Profile_Location p ! j) =
          mappingForAddr mm (Address (Profile_Location p ! j)) \<and>
        Location_ID (Profile_Location p ! j) = of_nat (j + 1)"
  proof
    fix j assume j: "j \<in> set sl"
    then have j1: "?n0 \<le> j" and j2: "j < length (Profile_Location p)"
      using rng unfolding PLp by auto
    show "?n0 \<le> j \<and> j < length (Profile_Location p) \<and>
        Location_Mapping (Profile_Location p ! j) =
          mappingForAddr mm (Address (Profile_Location p ! j)) \<and>
        Location_ID (Profile_Location p ! j) = of_nat (j + 1)"
      using locs_invD2 [OF inv3' j1 j2] j1 j2 by blast
  qed
  show ?thesis using lt nth a b by blast
qed

section \<open>Decoding stacks and the example stacks\<close>

lemma binary_Read_empty: "binary_Read [] = Inl EOF"
  by (simp add: binary_Read_def)

lemma binary_Read_length: "binary_Read bs = Inr st \<Longrightarrow> length st = stackDepth"
  by (auto simp: binary_Read_def read_uint64s_def split: if_splits)

lemma binary_Read_fails_iff: "(\<exists>err. binary_Read bs = Inl err) \<longleftrightarrow> length bs < 8 * stackDepth"
  by (auto simp: binary_Read_def stackDepth_def)

lemma read_uint64s_chunk:
  assumes "0 < n"
  shows "read_uint64s n (b0 # b1 # b2 # b3 # b4 # b5 # b6 # b7 # rest) =
     le_uint64 [b0, b1, b2, b3, b4, b5, b6, b7] # read_uint64s (n - 1) rest"
proof -
  obtain k where n: "n = Suc k" using assms by (cases n) auto
  have "[0..<Suc k] = 0 # map Suc [0..<k]"
    by (simp add: upt_conv_Cons map_Suc_upt)
  moreover have "drop (8 * Suc i) (b0 # b1 # b2 # b3 # b4 # b5 # b6 # b7 # rest) = drop (8 * i) rest" for i
  proof -
    have "drop (8 * i + 8) (b0 # b1 # b2 # b3 # b4 # b5 # b6 # b7 # rest) =
          drop (8 * i) (drop 8 (b0 # b1 # b2 # b3 # b4 # b5 # b6 # b7 # rest))"
      by (simp only: drop_drop)
    then show ?thesis by (simp add: add.commute)
  qed
  ultimately show ?thesis unfolding n read_uint64s_def by (simp add: comp_def)
qed

lemma le_uint64_zeros: "k + 8 \<le> m \<Longrightarrow> le_uint64 (take 8 (drop k (replicate m 0))) = 0"
  by (simp add: le_uint64_def)

lemma read_uint64s_zeros:
  assumes "8 * n \<le> m"
  shows "read_uint64s n (replicate m 0) = replicate n 0"
proof -
  have "map (\<lambda>i. le_uint64 (take 8 (drop (8 * i) (replicate m 0)))) [0..<n] = map (\<lambda>i. 0) [0..<n]"
  proof (rule map_cong [OF refl])
    fix i assume "i \<in> set [0..<n]"
    then have "8 * i + 8 \<le> m" using assms by simp
    then show "le_uint64 (take 8 (drop (8 * i) (replicate m 0))) = 0" by (rule le_uint64_zeros)
  qed
  then show ?thesis unfolding read_uint64s_def by (simp add: map_replicate_const)
qed

lemma le_uint64_examples:
  "le_uint64 [0x26, 0x11, 0x40, 0, 0, 0, 0, 0] = 0x401126"
  "le_uint64 [0x00, 0x10, 0x40, 0, 0, 0, 0, 0] = 0x401000"
  "le_uint64 [0x10, 0x2a, 0x3c, 0x5e, 0xfd, 0x7f, 0, 0] = 0x7ffd5e3c2a10"
  "le_uint64 [0x5a, 0x11, 0x40, 0, 0, 0, 0, 0] = 0x40115a"
  "le_uint64 [0, 0, 0, 0, 0, 0, 0, 0] = 0"
  by (simp_all add: le_uint64_def)

lemma binary_Read_example_user_bytes:
  "binary_Read example_user_bytes =
     Inr ([0x401126, 0x401000, 0x7ffd5e3c2a10] @ replicate 124 0)"
  by (simp add: binary_Read_def example_user_bytes_def stackDepth_def read_uint64s_chunk
      read_uint64s_zeros le_uint64_examples)

lemma binary_Read_example_gap_bytes:
  "binary_Read example_gap_bytes = Inr ([0x401126, 0, 0x40115a] @ replicate 124 0)"
  by (simp add: binary_Read_def example_gap_bytes_def stackDepth_def read_uint64s_chunk
      read_uint64s_zeros le_uint64_examples)

lemma binary_Read_example_kernel_bytes:
  "binary_Read example_kernel_bytes = Inr (replicate 127 0)"
  by (simp add: binary_Read_def example_kernel_bytes_def stackDepth_def read_uint64s_zeros)

lemma mappingForAddr_examples:
  "mappingForAddr example_mappings 0x401126 = Some 1"
  "mappingForAddr example_mappings 0x401000 = Some 0"
  "mappingForAddr example_mappings 0x7ffd5e3c2a10 = None"
  "mappingForAddr example_mappings 0x40115a = Some 1"
  by (simp_all add: mappingForAddr_def example_mappings_def)

lemma fillProfile_example_counts:
  "fillProfile example_counts example_stackTraces empty_profile 1 example_mappings =
   \<lparr>Profile_Sample =
      [\<lparr>Sample_Value = [3], Sample_Location = [0, 1, 2]\<rparr>,
       \<lparr>Sample_Value = [1], Sample_Location = [0, 3]\<rparr>],
    Profile_Mapping =
     [\<lparr>Mapping_ID = 1, Start = 0x400000, Limit = 0x401000, Offset = 0, File = ''/vagrant/fib''\<rparr>,
      \<lparr>Mapping_ID = 2, Start = 0x401000, Limit = 0x402000, Offset = 0x1000,
        File = ''/vagrant/fib''\<rparr>],
    Profile_Location =
     [\<lparr>Location_ID = 1, Address = 0x401126, Location_Mapping = Some 1\<rparr>,
      \<lparr>Location_ID = 2, Address = 0x401000, Location_Mapping = Some 0\<rparr>,
      \<lparr>Location_ID = 3, Address = 0x7ffd5e3c2a10, Location_Mapping = None\<rparr>,
      \<lparr>Location_ID = 4, Address = 0x40115a, Location_Mapping = Some 1\<rparr>]\<rparr>"
  by (simp add: fillProfile_def fillProfile_key_def appendSample_def
      binary_Read_example_kernel_bytes example_counts_def example_stackTraces_def
      binary_Read_example_user_bytes binary_Read_example_gap_bytes funpow_addLocation_zero
      addLocation_def mappingForAddr_examples empty_profile_def)
     (simp add: example_mappings_def enumerate_eq_zip)

lemma fillProfile_example_gap:
  "fillProfile [(\<lparr>PID = 1, UserStackID = 366, KernelStackID = 114\<rparr>, 1)]
     example_stackTraces empty_profile 1 example_mappings =
   \<lparr>Profile_Sample = [\<lparr>Sample_Value = [1], Sample_Location = [0, 1]\<rparr>],
    Profile_Mapping =
     [\<lparr>Mapping_ID = 1, Start = 0x400000, Limit = 0x401000, Offset = 0, File = ''/vagrant/fib''\<rparr>,
      \<lparr>Mapping_ID = 2, Start = 0x401000, Limit = 0x402000, Offset = 0x1000,
        File = ''/vagrant/fib''\<rparr>],
    Profile_Location =
     [\<lparr>Location_ID = 1, Address = 0x401126, Location_Mapping = Some 1\<rparr>,
      \<lparr>Location_ID = 2, Address = 0x40115a, Location_Mapping = Some 1\<rparr>]\<rparr>"
  by (simp add: fillProfile_def fillProfile_key_def appendSample_def
      binary_Read_example_kernel_bytes example_stackTraces_def
      binary_Read_example_gap_bytes funpow_addLocation_zero
      addLocation_def mappingForAddr_examples empty_profile_def)
     (simp add: example_mappings_def enumerate_eq_zip)

lemma fillProfile_example_kernel_missing:
  "Profile_Sample
     (fillProfile [(\<lparr>PID = 1, UserStackID = 132, KernelStackID = - 14\<rparr>, 3)]
        example_stackTraces empty_profile 1 example_mappings) =
     [\<lparr>Sample_Value = [3], Sample_Location = [0, 1, 2]\<rparr>]"
  by (simp add: fillProfile_def fillProfile_key_def appendSample_def example_stackTraces_def
      binary_Read_example_user_bytes binary_Read_empty funpow_addLocation_zero
      addLocation_def mappingForAddr_examples empty_profile_def)

section \<open>Mappings\<close>

text \<open>
  C4. After \<open>fillProfile\<close> the profile's mappings are the supplied list in its order,
  the \<open>i\<close>-th with the id \<open>i + 1\<close> and otherwise unchanged, so that the ids
  are \<open>1..N\<close>.
\<close>

theorem fillProfile_mapping_ids:
  assumes "length mm < 2 ^ 64" and "i < length mm"
  shows "length (Profile_Mapping (fillProfile counts stackTraces prof pid mm)) = length mm \<and>
         Profile_Mapping (fillProfile counts stackTraces prof pid mm) ! i =
           (mm ! i)\<lparr>Mapping_ID := of_nat (i + 1)\<rparr> \<and>
         unat (Mapping_ID (Profile_Mapping (fillProfile counts stackTraces prof pid mm) ! i)) = i + 1"
proof -
  have "i + 1 < 2 ^ LENGTH(64)" using assms by simp
  then have "unat (of_nat (i + 1) :: uint64) = i + 1"
    by (rule of_nat_inverse [OF refl])
  moreover have "Profile_Mapping (fillProfile counts stackTraces prof pid mm) ! i =
           (mm ! i)\<lparr>Mapping_ID := of_nat (i + 1)\<rparr>"
    using assms(2) by (simp add: Profile_Mapping_fillProfile nth_enumerate_eq)
  ultimately show ?thesis
    by (simp add: Profile_Mapping_fillProfile)
qed

theorem fillProfile_mapping_ids_witness:
  "length example_mappings < 2 ^ 64 \<and> 1 < length example_mappings \<and>
   Profile_Mapping (fillProfile [] example_stackTraces empty_profile 1 example_mappings) ! 1 =
     \<lparr>Mapping_ID = 2, Start = 0x401000, Limit = 0x402000, Offset = 0x1000,
       File = ''/vagrant/fib''\<rparr> \<and>
   unat (Mapping_ID
     (Profile_Mapping (fillProfile [] example_stackTraces empty_profile 1 example_mappings) ! 1)) = 2"
  using fillProfile_mapping_ids [of example_mappings 1 "[]" example_stackTraces empty_profile 1]
  by (simp add: example_mappings_def)

lemma mappingForAddr_from_None:
  "mappingForAddr_from k ms addr = None \<longleftrightarrow>
     (\<forall>m\<in>set ms. \<not> (Start m \<le> addr \<and> addr \<le> Limit m))"
  by (induction k ms addr rule: mappingForAddr_from.induct) auto

lemma mappingForAddr_from_Some:
  "mappingForAddr_from k ms addr = Some i \<longleftrightarrow>
     k \<le> i \<and> i - k < length ms \<and> Start (ms ! (i - k)) \<le> addr \<and> addr \<le> Limit (ms ! (i - k)) \<and>
     (\<forall>j<i - k. \<not> (Start (ms ! j) \<le> addr \<and> addr \<le> Limit (ms ! j)))"
proof (induction k ms addr arbitrary: i rule: mappingForAddr_from.induct)
  case (1 k addr)
  then show ?case by simp
next
  case (2 k m ms addr)
  show ?case
  proof (cases "Start m \<le> addr \<and> addr \<le> Limit m")
    case True
    have "i = k" if "k \<le> i" "\<forall>j<i - k. \<not> (Start ((m # ms) ! j) \<le> addr \<and> addr \<le> Limit ((m # ms) ! j))"
    proof (rule ccontr)
      assume "i \<noteq> k"
      then have "0 < i - k" using that(1) by simp
      then have "\<not> (Start ((m # ms) ! 0) \<le> addr \<and> addr \<le> Limit ((m # ms) ! 0))"
        using that(2) by blast
      then show False using True by simp
    qed
    then show ?thesis using True by auto
  next
    case False
    have "mappingForAddr_from k (m # ms) addr = mappingForAddr_from (k + 1) ms addr"
      using False by auto
    also have "\<dots> = Some i \<longleftrightarrow>
        k + 1 \<le> i \<and> i - (k + 1) < length ms \<and> Start (ms ! (i - (k + 1))) \<le> addr \<and>
        addr \<le> Limit (ms ! (i - (k + 1))) \<and>
        (\<forall>j<i - (k + 1). \<not> (Start (ms ! j) \<le> addr \<and> addr \<le> Limit (ms ! j)))"
      using "2.IH" [OF False] by simp
    finally have eq: "mappingForAddr_from k (m # ms) addr = Some i \<longleftrightarrow>
        k + 1 \<le> i \<and> i - (k + 1) < length ms \<and> Start (ms ! (i - (k + 1))) \<le> addr \<and>
        addr \<le> Limit (ms ! (i - (k + 1))) \<and>
        (\<forall>j<i - (k + 1). \<not> (Start (ms ! j) \<le> addr \<and> addr \<le> Limit (ms ! j)))" .
    show ?thesis
    proof (cases "k + 1 \<le> i")
      case True
      then obtain d where d: "i - k = Suc d" "i - (k + 1) = d" 
        by (metis Suc_diff_Suc Suc_eq_plus1 Suc_le_lessD diff_diff_left)
      have "(\<forall>j<Suc d. \<not> (Start ((m # ms) ! j) \<le> addr \<and> addr \<le> Limit ((m # ms) ! j))) \<longleftrightarrow>
            (\<forall>j<d. \<not> (Start (ms ! j) \<le> addr \<and> addr \<le> Limit (ms ! j)))"
        using False by (auto simp: less_Suc_eq_0_disj)
      then show ?thesis unfolding eq d using True by auto
    next
      case nle: False
      then have "i \<le> k" by simp
      then have "i - k = 0" by simp
      then show ?thesis unfolding eq using nle False by auto
    qed
  qed
qed

text \<open>
  C10. The mapping of a location is the first mapping of the list, in its order, with
  \<open>Start \<le> addr\<close> and \<open>addr \<le> Limit\<close>, so that an address equal to a mapping's limit
  belongs to it, and nil when no mapping holds the address. Whatever the mapping, every
  nonzero address of the user stack of a key that gives a sample has, in that sample, a
  location with this address and this mapping.
\<close>

theorem mappingForAddr_limit_inclusive:
  "(mappingForAddr mm addr = Some i \<longleftrightarrow>
      i < length mm \<and> Start (mm ! i) \<le> addr \<and> addr \<le> Limit (mm ! i) \<and>
      (\<forall>j<i. \<not> (Start (mm ! j) \<le> addr \<and> addr \<le> Limit (mm ! j)))) \<and>
   (mappingForAddr mm addr = None \<longleftrightarrow>
      (\<forall>m\<in>set mm. \<not> (Start m \<le> addr \<and> addr \<le> Limit m))) \<and>
   (stackTraces (UserStackID key) = Inr stackBytes \<and> binary_Read stackBytes = Inr userStack \<and>
    stackTraces (KernelStackID key) = Inr kernelBytes \<and> addr \<in> set userStack \<and> addr \<noteq> 0 \<longrightarrow>
      (\<exists>j\<in>set (Sample_Location
           (Profile_Sample (fillProfile (before @ (key, seen) # after) stackTraces prof pid mm) !
              length (Profile_Sample (fillProfile before stackTraces prof pid mm)))).
         j < length (Profile_Location
               (fillProfile (before @ (key, seen) # after) stackTraces prof pid mm)) \<and>
         Address (Profile_Location
               (fillProfile (before @ (key, seen) # after) stackTraces prof pid mm) ! j) = addr \<and>
         Location_Mapping (Profile_Location
               (fillProfile (before @ (key, seen) # after) stackTraces prof pid mm) ! j) =
           mappingForAddr mm addr))"
proof -
  let ?p = "fillProfile (before @ (key, seen) # after) stackTraces prof pid mm"
  let ?n = "length (Profile_Sample (fillProfile before stackTraces prof pid mm))"
  have C: "\<exists>j\<in>set (Sample_Location (Profile_Sample ?p ! ?n)).
      j < length (Profile_Location ?p) \<and> Address (Profile_Location ?p ! j) = addr \<and>
      Location_Mapping (Profile_Location ?p ! j) = mappingForAddr mm addr"
    if h: "stackTraces (UserStackID key) = Inr stackBytes \<and> binary_Read stackBytes = Inr userStack \<and>
      stackTraces (KernelStackID key) = Inr kernelBytes \<and> addr \<in> set userStack \<and> addr \<noteq> 0"
  proof -
    have u: "stackTraces (UserStackID key) = Inr stackBytes"
      and r: "binary_Read stackBytes = Inr userStack"
      and k: "stackTraces (KernelStackID key) = Inr kernelBytes"
      using h by simp_all
    from fillProfile_at_key [OF u r k, where before = before and seen = seen
        and after = after and prof = prof and pid = pid and mm = mm] obtain sl where
      nth: "Profile_Sample ?p ! ?n = \<lparr>Sample_Value = [seen], Sample_Location = sl\<rparr>"
      and addrs: "map (\<lambda>j. Address (Profile_Location ?p ! j)) sl = filter (\<lambda>a. a \<noteq> 0) userStack"
      and locs: "\<forall>j\<in>set sl. length (Profile_Location prof) \<le> j \<and> j < length (Profile_Location ?p) \<and>
          Location_Mapping (Profile_Location ?p ! j) =
            mappingForAddr mm (Address (Profile_Location ?p ! j)) \<and>
          Location_ID (Profile_Location ?p ! j) = of_nat (j + 1)"
      by blast
    have "addr \<in> set (filter (\<lambda>a. a \<noteq> 0) userStack)" using h by simp
    then have "addr \<in> set (map (\<lambda>j. Address (Profile_Location ?p ! j)) sl)"
      using addrs by simp
    then obtain j where j: "j \<in> set sl" "Address (Profile_Location ?p ! j) = addr" by auto
    have "j < length (Profile_Location ?p) \<and> Address (Profile_Location ?p ! j) = addr \<and>
          Location_Mapping (Profile_Location ?p ! j) = mappingForAddr mm addr"
      using locs j by auto
    then show ?thesis using j(1) nth by auto
  qed
  have A: "mappingForAddr mm addr = Some i \<longleftrightarrow>
           i < length mm \<and> Start (mm ! i) \<le> addr \<and> addr \<le> Limit (mm ! i) \<and>
           (\<forall>j<i. \<not> (Start (mm ! j) \<le> addr \<and> addr \<le> Limit (mm ! j)))"
    unfolding mappingForAddr_def mappingForAddr_from_Some by simp
  have B: "mappingForAddr mm addr = None \<longleftrightarrow>
           (\<forall>m\<in>set mm. \<not> (Start m \<le> addr \<and> addr \<le> Limit m))"
    unfolding mappingForAddr_def by (rule mappingForAddr_from_None)
  show ?thesis using A B C by blast
qed

theorem mappingForAddr_limit_inclusive_witness:
  "example_stackTraces (UserStackID \<lparr>PID = 1, UserStackID = 132, KernelStackID = 114\<rparr>) =
     Inr example_user_bytes \<and>
   binary_Read example_user_bytes = Inr ([0x401126, 0x401000, 0x7ffd5e3c2a10] @ replicate 124 0) \<and>
   example_stackTraces (KernelStackID \<lparr>PID = 1, UserStackID = 132, KernelStackID = 114\<rparr>) =
     Inr example_kernel_bytes \<and>
   0x401000 \<in> set ([0x401126, 0x401000, 0x7ffd5e3c2a10] @ replicate 124 (0 :: uint64)) \<and>
   (0x401000 :: uint64) \<noteq> 0 \<and>
   mappingForAddr example_mappings 0x401000 = Some 0 \<and>
   Limit (example_mappings ! 0) = 0x401000 \<and>
   (\<exists>j\<in>set (Sample_Location (Profile_Sample
        (fillProfile ([] @ (\<lparr>PID = 1, UserStackID = 132, KernelStackID = 114\<rparr>, 3) # [])
           example_stackTraces empty_profile 1 example_mappings) !
        length (Profile_Sample (fillProfile [] example_stackTraces empty_profile 1 example_mappings)))).
      j < length (Profile_Location
        (fillProfile ([] @ (\<lparr>PID = 1, UserStackID = 132, KernelStackID = 114\<rparr>, 3) # [])
           example_stackTraces empty_profile 1 example_mappings)) \<and>
      Address (Profile_Location
        (fillProfile ([] @ (\<lparr>PID = 1, UserStackID = 132, KernelStackID = 114\<rparr>, 3) # [])
           example_stackTraces empty_profile 1 example_mappings) ! j) = 0x401000 \<and>
      Location_Mapping (Profile_Location
        (fillProfile ([] @ (\<lparr>PID = 1, UserStackID = 132, KernelStackID = 114\<rparr>, 3) # [])
           example_stackTraces empty_profile 1 example_mappings) ! j) = Some 0) \<and>
   0x7ffd5e3c2a10 \<in> set ([0x401126, 0x401000, 0x7ffd5e3c2a10] @ replicate 124 (0 :: uint64)) \<and>
   (0x7ffd5e3c2a10 :: uint64) \<noteq> 0 \<and>
   mappingForAddr example_mappings 0x7ffd5e3c2a10 = None \<and>
   (\<exists>j\<in>set (Sample_Location (Profile_Sample
        (fillProfile ([] @ (\<lparr>PID = 1, UserStackID = 132, KernelStackID = 114\<rparr>, 3) # [])
           example_stackTraces empty_profile 1 example_mappings) !
        length (Profile_Sample (fillProfile [] example_stackTraces empty_profile 1 example_mappings)))).
      j < length (Profile_Location
        (fillProfile ([] @ (\<lparr>PID = 1, UserStackID = 132, KernelStackID = 114\<rparr>, 3) # [])
           example_stackTraces empty_profile 1 example_mappings)) \<and>
      Address (Profile_Location
        (fillProfile ([] @ (\<lparr>PID = 1, UserStackID = 132, KernelStackID = 114\<rparr>, 3) # [])
           example_stackTraces empty_profile 1 example_mappings) ! j) = 0x7ffd5e3c2a10 \<and>
      Location_Mapping (Profile_Location
        (fillProfile ([] @ (\<lparr>PID = 1, UserStackID = 132, KernelStackID = 114\<rparr>, 3) # [])
           example_stackTraces empty_profile 1 example_mappings) ! j) = None)"
proof -
  let ?key = "\<lparr>PID = 1, UserStackID = 132, KernelStackID = 114\<rparr>"
  have u: "example_stackTraces (UserStackID ?key) = Inr example_user_bytes"
    by (simp add: example_stackTraces_def)
  note r = binary_Read_example_user_bytes
  have k: "example_stackTraces (KernelStackID ?key) = Inr example_kernel_bytes"
    by (simp add: example_stackTraces_def)
  have m1: "0x401000 \<in> set ([0x401126, 0x401000, 0x7ffd5e3c2a10] @ replicate 124 (0 :: uint64))"
    by simp
  have m2: "0x7ffd5e3c2a10 \<in> set ([0x401126, 0x401000, 0x7ffd5e3c2a10] @ replicate 124 (0 :: uint64))"
    by simp
  have nz1: "(0x401000 :: uint64) \<noteq> 0" by simp
  have nz2: "(0x7ffd5e3c2a10 :: uint64) \<noteq> 0" by simp
  have some: "mappingForAddr example_mappings 0x401000 = Some 0"
    by (rule mappingForAddr_examples)
  have none: "mappingForAddr example_mappings 0x7ffd5e3c2a10 = None"
    by (rule mappingForAddr_examples)
  have lim: "Limit (example_mappings ! 0) = 0x401000" by (simp add: example_mappings_def)
  have e1: "\<exists>j\<in>set (Sample_Location (Profile_Sample
        (fillProfile ([] @ (?key, 3) # []) example_stackTraces empty_profile 1 example_mappings) !
        length (Profile_Sample (fillProfile [] example_stackTraces empty_profile 1 example_mappings)))).
      j < length (Profile_Location
        (fillProfile ([] @ (?key, 3) # []) example_stackTraces empty_profile 1 example_mappings)) \<and>
      Address (Profile_Location
        (fillProfile ([] @ (?key, 3) # []) example_stackTraces empty_profile 1 example_mappings) ! j) =
        0x401000 \<and>
      Location_Mapping (Profile_Location
        (fillProfile ([] @ (?key, 3) # []) example_stackTraces empty_profile 1 example_mappings) ! j) =
        Some 0"
    using mappingForAddr_limit_inclusive [where mm = example_mappings and addr = "0x401000"
        and stackTraces = example_stackTraces and key = ?key and stackBytes = example_user_bytes
        and userStack = "[0x401126, 0x401000, 0x7ffd5e3c2a10] @ replicate 124 0"
        and kernelBytes = example_kernel_bytes and before = "[]" and seen = 3 and after = "[]"
        and prof = empty_profile and pid = 1]
      u r k m1 nz1
    by (simp only: some) blast
  have e2: "\<exists>j\<in>set (Sample_Location (Profile_Sample
        (fillProfile ([] @ (?key, 3) # []) example_stackTraces empty_profile 1 example_mappings) !
        length (Profile_Sample (fillProfile [] example_stackTraces empty_profile 1 example_mappings)))).
      j < length (Profile_Location
        (fillProfile ([] @ (?key, 3) # []) example_stackTraces empty_profile 1 example_mappings)) \<and>
      Address (Profile_Location
        (fillProfile ([] @ (?key, 3) # []) example_stackTraces empty_profile 1 example_mappings) ! j) =
        0x7ffd5e3c2a10 \<and>
      Location_Mapping (Profile_Location
        (fillProfile ([] @ (?key, 3) # []) example_stackTraces empty_profile 1 example_mappings) ! j) =
        None"
    using mappingForAddr_limit_inclusive [where mm = example_mappings and addr = "0x7ffd5e3c2a10"
        and stackTraces = example_stackTraces and key = ?key and stackBytes = example_user_bytes
        and userStack = "[0x401126, 0x401000, 0x7ffd5e3c2a10] @ replicate 124 0"
        and kernelBytes = example_kernel_bytes and before = "[]" and seen = 3 and after = "[]"
        and prof = empty_profile and pid = 1]
      u r k m2 nz2
    by (simp only: none) blast
  show ?thesis by (intro conjI u r k m1 nz1 some lim e1 m2 nz2 none e2)
qed

section \<open>Locations and samples\<close>



lemma filter_nonzero_padded:
  "(\<forall>i j. i \<le> j \<and> j < length xs \<and> xs ! i = 0 \<longrightarrow> xs ! j = 0) \<Longrightarrow>
     filter (\<lambda>a. a \<noteq> 0) xs = takeWhile (\<lambda>a. a \<noteq> 0) (xs :: uint64 list)"
proof (induction xs)
  case Nil
  then show ?case by simp
next
  case (Cons a xs)
  show ?case
  proof (cases "a = 0")
    case True
    have "x = 0" if "x \<in> set xs" for x
    proof -
      from that obtain j where j: "j < length xs" "xs ! j = x" by (auto simp: in_set_conv_nth)
      have "(a # xs) ! Suc j = 0"
        using Cons.prems [rule_format, of 0 "Suc j"] True j by simp
      then show ?thesis using j by simp
    qed
    then have "filter (\<lambda>a. a \<noteq> 0) xs = []" by (auto simp: filter_empty_conv)
    then show ?thesis using True by simp
  next
    case False
    have "\<forall>i j. i \<le> j \<and> j < length xs \<and> xs ! i = 0 \<longrightarrow> xs ! j = 0"
    proof (intro allI impI)
      fix i j assume "i \<le> j \<and> j < length xs \<and> xs ! i = 0"
      then show "xs ! j = 0"
        using Cons.prems [rule_format, of "Suc i" "Suc j"] by simp
    qed
    then show ?thesis using Cons.IH False by simp
  qed
qed

lemma tracedAddresses_from_eq:
  "tracedAddresses_from seen stack =
     (if 0 \<in> set stack then seen @ takeWhile (\<lambda>a. a \<noteq> 0) stack else [])"
  by (induction stack arbitrary: seen) auto

text \<open>
  \<open>tracedAddresses\<close> does cut the stack at its first zero; it gives what the code
  prints, not the locations of the sample.
\<close>

lemma tracedAddresses_eq:
  "tracedAddresses stack = (if 0 \<in> set stack then takeWhile (\<lambda>a. a \<noteq> 0) stack else [])"
  by (simp add: tracedAddresses_def tracedAddresses_from_eq)

text \<open>
  C2, as amended. The key of a decoded user stack (127 addresses) whose kernel stack is
  found appends one sample, with the count as value, whose locations are the nonzero
  addresses of the stack in order: zeros are left out wherever they are, and a nonzero
  address after a zero is kept. On a stack that holds only zeros after its first zero
  these are the addresses before the first zero.
\<close>

theorem fillProfile_sample_addresses:
  assumes "stackTraces (UserStackID key) = Inr stackBytes"
    and "binary_Read stackBytes = Inr userStack"
    and "stackTraces (KernelStackID key) = Inr kernelBytes"
  shows "length userStack = 127 \<and>
         length (Profile_Sample (fillProfile before stackTraces prof pid mm)) <
           length (Profile_Sample (fillProfile (before @ (key, seen) # after) stackTraces prof pid mm)) \<and>
         Sample_Value
           (Profile_Sample (fillProfile (before @ (key, seen) # after) stackTraces prof pid mm) !
              length (Profile_Sample (fillProfile before stackTraces prof pid mm))) = [seen] \<and>
         map (\<lambda>j. Address
                (Profile_Location
                   (fillProfile (before @ (key, seen) # after) stackTraces prof pid mm) ! j))
           (Sample_Location
              (Profile_Sample (fillProfile (before @ (key, seen) # after) stackTraces prof pid mm) !
                 length (Profile_Sample (fillProfile before stackTraces prof pid mm)))) =
           filter (\<lambda>a. a \<noteq> 0) userStack \<and>
         ((\<forall>i j. i \<le> j \<and> j < length userStack \<and> userStack ! i = 0 \<longrightarrow> userStack ! j = 0) \<longrightarrow>
            filter (\<lambda>a. a \<noteq> 0) userStack = takeWhile (\<lambda>a. a \<noteq> 0) userStack)"
proof -
  let ?p = "fillProfile (before @ (key, seen) # after) stackTraces prof pid mm"
  let ?n = "length (Profile_Sample (fillProfile before stackTraces prof pid mm))"
  from fillProfile_at_key [OF assms(1-3), where before = before and seen = seen
      and after = after and prof = prof and pid = pid and mm = mm] obtain sl where
    lt: "?n < length (Profile_Sample ?p)"
    and nth: "Profile_Sample ?p ! ?n = \<lparr>Sample_Value = [seen], Sample_Location = sl\<rparr>"
    and addrs: "map (\<lambda>j. Address (Profile_Location ?p ! j)) sl = filter (\<lambda>a. a \<noteq> 0) userStack"
    by blast
  have len: "length userStack = 127"
    using binary_Read_length [OF assms(2)] by (simp add: stackDepth_def)
  have v: "Sample_Value (Profile_Sample ?p ! ?n) = [seen]" by (simp add: nth)
  have a: "map (\<lambda>j. Address (Profile_Location ?p ! j)) (Sample_Location (Profile_Sample ?p ! ?n)) =
           filter (\<lambda>a. a \<noteq> 0) userStack"
    using addrs by (simp add: nth)
  have pad: "(\<forall>i j. i \<le> j \<and> j < length userStack \<and> userStack ! i = 0 \<longrightarrow> userStack ! j = 0) \<longrightarrow>
            filter (\<lambda>a. a \<noteq> 0) userStack = takeWhile (\<lambda>a. a \<noteq> 0) userStack"
    using filter_nonzero_padded [of userStack] by blast
  show ?thesis by (intro conjI len lt v a pad)
qed

theorem fillProfile_sample_addresses_witness:
  "example_stackTraces (UserStackID \<lparr>PID = 1, UserStackID = 366, KernelStackID = 114\<rparr>) =
     Inr example_gap_bytes \<and>
   binary_Read example_gap_bytes = Inr ([0x401126, 0, 0x40115a] @ replicate 124 0) \<and>
   example_stackTraces (KernelStackID \<lparr>PID = 1, UserStackID = 366, KernelStackID = 114\<rparr>) =
     Inr example_kernel_bytes \<and>
   map (\<lambda>j. Address
          (Profile_Location
             (fillProfile ([] @ (\<lparr>PID = 1, UserStackID = 366, KernelStackID = 114\<rparr>, 1) # [])
                example_stackTraces empty_profile 1 example_mappings) ! j))
     (Sample_Location
        (Profile_Sample
           (fillProfile ([] @ (\<lparr>PID = 1, UserStackID = 366, KernelStackID = 114\<rparr>, 1) # [])
              example_stackTraces empty_profile 1 example_mappings) !
         length (Profile_Sample
           (fillProfile [] example_stackTraces empty_profile 1 example_mappings)))) =
     [0x401126, 0x40115a]"
proof -
  have u: "example_stackTraces (UserStackID \<lparr>PID = 1, UserStackID = 366, KernelStackID = 114\<rparr>) =
     Inr example_gap_bytes"
    by (simp add: example_stackTraces_def)
  have k: "example_stackTraces (KernelStackID \<lparr>PID = 1, UserStackID = 366, KernelStackID = 114\<rparr>) =
     Inr example_kernel_bytes"
    by (simp add: example_stackTraces_def)
  have f: "filter (\<lambda>a. a \<noteq> 0) ([0x401126, 0, 0x40115a] @ replicate 124 (0 :: uint64)) =
     [0x401126, 0x40115a]"
    by simp
  show ?thesis
    using fillProfile_sample_addresses [OF u binary_Read_example_gap_bytes k,
        where before = "[]" and seen = 1 and after = "[]" and prof = empty_profile and pid = 1
        and mm = example_mappings]
      u k binary_Read_example_gap_bytes
    by (simp add: f)
qed

theorem fillProfile_gap_counterexample:
  "binary_Read example_gap_bytes = Inr ([0x401126, 0, 0x40115a] @ replicate 124 0) \<and>
   map (\<lambda>j. Address
          (Profile_Location
             (fillProfile [(\<lparr>PID = 1, UserStackID = 366, KernelStackID = 114\<rparr>, 1)]
                example_stackTraces empty_profile 1 example_mappings) ! j))
     (Sample_Location
        (Profile_Sample
           (fillProfile [(\<lparr>PID = 1, UserStackID = 366, KernelStackID = 114\<rparr>, 1)]
              example_stackTraces empty_profile 1 example_mappings) ! 0)) =
     [0x401126, 0x40115a] \<and>
   map (\<lambda>j. Address
          (Profile_Location
             (fillProfile [(\<lparr>PID = 1, UserStackID = 366, KernelStackID = 114\<rparr>, 1)]
                example_stackTraces empty_profile 1 example_mappings) ! j))
     (Sample_Location
        (Profile_Sample
           (fillProfile [(\<lparr>PID = 1, UserStackID = 366, KernelStackID = 114\<rparr>, 1)]
              example_stackTraces empty_profile 1 example_mappings) ! 0)) \<noteq>
     takeWhile (\<lambda>a. a \<noteq> 0) ([0x401126, 0, 0x40115a] @ replicate 124 (0 :: uint64))"
  using binary_Read_example_gap_bytes by (simp add: fillProfile_example_gap)

section \<open>Stacks that cannot be read\<close>

text \<open>
  A key whose user stack cannot be read, because the lookup fails or because the table
  gives fewer than \<open>8 * stackDepth\<close> bytes, adds nothing: the profile is the one that the
  other keys give, and the keys after it are processed.
\<close>

lemma fillProfile_unreadable_user_stack:
  assumes "\<not> holds_stack stackTraces (UserStackID key)"
  shows "fillProfile_key stackTraces pid mm (key, seen) st = st"
    and "fillProfile (before @ (key, seen) # after) stackTraces prof pid mm =
         fillProfile (before @ after) stackTraces prof pid mm"
proof -
  have skip: "fillProfile_key stackTraces pid mm (key, seen) st = st" for st
  proof (cases "stackTraces (UserStackID key)")
    case (Inl err)
    then show ?thesis by (rule fillProfile_key_user_lookup_failed)
  next
    case (Inr stackBytes)
    then have "length stackBytes < 8 * stackDepth"
      using assms by (simp add: holds_stack_def)
    then obtain e where "binary_Read stackBytes = Inl e"
      using binary_Read_fails_iff [of stackBytes] by blast
    with Inr show ?thesis by (rule fillProfile_key_user_read_failed)
  qed
  show "fillProfile_key stackTraces pid mm (key, seen) st = st" by (rule skip)
  show "fillProfile (before @ (key, seen) # after) stackTraces prof pid mm =
        fillProfile (before @ after) stackTraces prof pid mm"
    by (simp add: fillProfile_def skip)
qed

lemma stack_traces_map_example_stackTraces: "stack_traces_map example_stackTraces"
  unfolding stack_traces_map_def holds_stack_def example_stackTraces_def
  by (auto simp add: stackDepth_def)

text \<open>
  C5. A key whose user stack id is negative gives no sample. \<open>fillProfile\<close> looks the
  id up as it does every id; the map \<open>stack_traces\<close> holds no stack under a negative id,
  so that the lookup fails or \<open>binary.Read\<close> fails on the bytes it gives, and the round
  of the key ends at one of the first two \<open>continue\<close>s with the profile and the location
  index as they were. No sample and no location is made for the key, and the profile is
  the one that the other keys give, those after the key included.
\<close>

theorem fillProfile_negative_user_stack_id:
  assumes "stack_traces_map stackTraces"
    and "sint (UserStackID key) < 0"
  shows "(\<forall>stackBytes. stackTraces (UserStackID key) = Inr stackBytes \<longrightarrow>
            (\<exists>err. binary_Read stackBytes = Inl err)) \<and>
         (\<forall>st. fillProfile_key stackTraces pid mm (key, seen) st = st) \<and>
         fillProfile (before @ (key, seen) # after) stackTraces prof pid mm =
         fillProfile (before @ after) stackTraces prof pid mm"
proof -
  have no: "\<not> holds_stack stackTraces (UserStackID key)"
    using assms unfolding stack_traces_map_def by fastforce
  have A: "\<exists>err. binary_Read stackBytes = Inl err"
    if "stackTraces (UserStackID key) = Inr stackBytes" for stackBytes
  proof -
    from no that have "length stackBytes < 8 * stackDepth"
      by (simp add: holds_stack_def)
    then show ?thesis using binary_Read_fails_iff [of stackBytes] by blast
  qed
  have B: "fillProfile_key stackTraces pid mm (key, seen) st = st" for st
    using no by (rule fillProfile_unreadable_user_stack(1))
  have C: "fillProfile (before @ (key, seen) # after) stackTraces prof pid mm =
           fillProfile (before @ after) stackTraces prof pid mm"
    using no by (rule fillProfile_unreadable_user_stack(2))
  from A B C show ?thesis by blast
qed

theorem fillProfile_negative_user_stack_id_witness:
  "stack_traces_map example_stackTraces \<and>
   sint (UserStackID \<lparr>PID = 1, UserStackID = - 14, KernelStackID = 114\<rparr>) = - 14 \<and>
   example_stackTraces (UserStackID \<lparr>PID = 1, UserStackID = - 14, KernelStackID = 114\<rparr>) = Inr [] \<and>
   binary_Read [] = Inl EOF \<and>
   (\<forall>st. fillProfile_key example_stackTraces 1 example_mappings
           (\<lparr>PID = 1, UserStackID = - 14, KernelStackID = 114\<rparr>, 2) st = st) \<and>
   fillProfile
     ([(\<lparr>PID = 1, UserStackID = 132, KernelStackID = 114\<rparr>, 3)] @
      (\<lparr>PID = 1, UserStackID = - 14, KernelStackID = 114\<rparr>, 2) #
      [(\<lparr>PID = 1, UserStackID = 366, KernelStackID = 114\<rparr>, 1)])
     example_stackTraces empty_profile 1 example_mappings =
   fillProfile example_counts example_stackTraces empty_profile 1 example_mappings \<and>
   Profile_Sample
     (fillProfile
        ([(\<lparr>PID = 1, UserStackID = 132, KernelStackID = 114\<rparr>, 3)] @
         (\<lparr>PID = 1, UserStackID = - 14, KernelStackID = 114\<rparr>, 2) #
         [(\<lparr>PID = 1, UserStackID = 366, KernelStackID = 114\<rparr>, 1)])
        example_stackTraces empty_profile 1 example_mappings) =
     [\<lparr>Sample_Value = [3], Sample_Location = [0, 1, 2]\<rparr>,
      \<lparr>Sample_Value = [1], Sample_Location = [0, 3]\<rparr>]"
proof -
  have m: "stack_traces_map example_stackTraces"
    by (rule stack_traces_map_example_stackTraces)
  have s: "sint (UserStackID \<lparr>PID = 1, UserStackID = - 14, KernelStackID = 114\<rparr>) = - 14"
    by simp
  have n: "sint (UserStackID \<lparr>PID = 1, UserStackID = - 14, KernelStackID = 114\<rparr>) < 0"
    by simp
  have t: "example_stackTraces (UserStackID \<lparr>PID = 1, UserStackID = - 14, KernelStackID = 114\<rparr>) =
      Inr []"
    by (simp add: example_stackTraces_def)
  have r: "binary_Read [] = Inl EOF"
    by (rule binary_Read_empty)
  note c5 = fillProfile_negative_user_stack_id [
        where stackTraces = example_stackTraces
        and key = "\<lparr>PID = 1, UserStackID = - 14, KernelStackID = 114\<rparr>"
        and before = "[(\<lparr>PID = 1, UserStackID = 132, KernelStackID = 114\<rparr>, 3)]"
        and seen = 2
        and after = "[(\<lparr>PID = 1, UserStackID = 366, KernelStackID = 114\<rparr>, 1)]"
        and prof = empty_profile and pid = 1 and mm = example_mappings, OF m n]
  have k: "\<forall>st. fillProfile_key example_stackTraces 1 example_mappings
           (\<lparr>PID = 1, UserStackID = - 14, KernelStackID = 114\<rparr>, 2) st = st"
    using c5 by blast
  have e: "fillProfile
     ([(\<lparr>PID = 1, UserStackID = 132, KernelStackID = 114\<rparr>, 3)] @
      (\<lparr>PID = 1, UserStackID = - 14, KernelStackID = 114\<rparr>, 2) #
      [(\<lparr>PID = 1, UserStackID = 366, KernelStackID = 114\<rparr>, 1)])
     example_stackTraces empty_profile 1 example_mappings =
   fillProfile example_counts example_stackTraces empty_profile 1 example_mappings"
    using c5 by (simp add: example_counts_def)
  have p: "Profile_Sample
     (fillProfile
        ([(\<lparr>PID = 1, UserStackID = 132, KernelStackID = 114\<rparr>, 3)] @
         (\<lparr>PID = 1, UserStackID = - 14, KernelStackID = 114\<rparr>, 2) #
         [(\<lparr>PID = 1, UserStackID = 366, KernelStackID = 114\<rparr>, 1)])
        example_stackTraces empty_profile 1 example_mappings) =
     [\<lparr>Sample_Value = [3], Sample_Location = [0, 1, 2]\<rparr>,
      \<lparr>Sample_Value = [1], Sample_Location = [0, 3]\<rparr>]"
    by (simp only: e fillProfile_example_counts) simp
  show ?thesis by (intro conjI m s t r k e p)
qed

text \<open>
  C1. The user stack of the key is found and decoded, and the lookup of its kernel stack
  fails: \<open>fillProfile\<close> goes on to the next key, and the profile has no sample and no
  location for the key.
\<close>

theorem fillProfile_kernel_lookup_failure_drops_sample:
  "example_stackTraces (UserStackID \<lparr>PID = 1, UserStackID = 132, KernelStackID = 943\<rparr>) =
     Inr example_user_bytes \<and>
   binary_Read example_user_bytes = Inr ([0x401126, 0x401000, 0x7ffd5e3c2a10] @ replicate 124 0) \<and>
   example_stackTraces (KernelStackID \<lparr>PID = 1, UserStackID = 132, KernelStackID = 943\<rparr>) =
     Inl ''lookup: bad file descriptor'' \<and>
   fillProfile [(\<lparr>PID = 1, UserStackID = 132, KernelStackID = 943\<rparr>, 3)]
     example_stackTraces empty_profile 1 example_mappings =
   \<lparr>Profile_Sample = [],
    Profile_Mapping =
     [\<lparr>Mapping_ID = 1, Start = 0x400000, Limit = 0x401000, Offset = 0, File = ''/vagrant/fib''\<rparr>,
      \<lparr>Mapping_ID = 2, Start = 0x401000, Limit = 0x402000, Offset = 0x1000,
        File = ''/vagrant/fib''\<rparr>],
    Profile_Location = []\<rparr>"
  by (simp add: fillProfile_def fillProfile_key_def appendSample_def
      binary_Read_example_kernel_bytes example_stackTraces_def
      binary_Read_example_user_bytes empty_profile_def)
     (simp add: example_mappings_def enumerate_eq_zip)

text \<open>
  The branch beside it keeps the sample: a kernel stack that is found but cannot be
  decoded (no bytes, for an id the table does not hold) does not stop the round.
\<close>

lemma fillProfile_kernel_read_failure_keeps_sample:
  assumes "stackTraces (UserStackID key) = Inr stackBytes"
    and "binary_Read stackBytes = Inr userStack"
    and "stackTraces (KernelStackID key) = Inr kernelBytes"
    and "binary_Read kernelBytes = Inl err"
  shows "fillProfile_key stackTraces pid mm (key, seen) st = appendSample pid mm userStack seen st"
    and "\<exists>sl. Profile_Sample (fst (fillProfile_key stackTraces pid mm (key, seen) (prof, Map.empty))) =
           Profile_Sample prof @ [\<lparr>Sample_Value = [seen], Sample_Location = sl\<rparr>]"
proof -
  show "fillProfile_key stackTraces pid mm (key, seen) st = appendSample pid mm userStack seen st"
    using assms by (simp add: fillProfile_key_def)
  from fillProfile_key_emit [OF assms(1-3) locs_inv_empty, where seen = seen and prof = prof
      and pid = pid and mm = mm]
  obtain news L' sl where
    "fillProfile_key stackTraces pid mm (key, seen) (prof, Map.empty) =
       (prof\<lparr>Profile_Sample := Profile_Sample prof @
                 [\<lparr>Sample_Value = [seen], Sample_Location = sl\<rparr>],
              Profile_Location := Profile_Location prof @ news\<rparr>, L')"
    by blast
  then show "\<exists>sl. Profile_Sample (fst (fillProfile_key stackTraces pid mm (key, seen) (prof, Map.empty))) =
           Profile_Sample prof @ [\<lparr>Sample_Value = [seen], Sample_Location = sl\<rparr>]"
    by simp
qed

end
